theory Spec2Isabelle
  imports Complex_Main "HOL-Library.Word" "HOL-Library.Multiset"
begin

section \<open>JavaScript values used by CabBookingApp.jsx\<close>

text \<open>
  Strings that the program only stores and compares (status, ids, e-mail addresses) are
  \<open>string\<close>. The pickup and drop-off texts are read code unit by code unit by the hash of
  \<open>mockDistance\<close>, so they are sequences of UTF-16 code units.

  Numbers are exact: integers are \<open>int\<close>, the fare is a \<open>rat\<close>. The hash works on
  integer-valued doubles; lemma \<open>hash_bound\<close> below shows that they stay below \<open>2 ^ 53\<close>
  (where doubles are exact on integers) for every text shorter than \<open>2 ^ 21\<close> code units.
\<close>

type_synonym jsstring = "16 word list"

definition charCodeAt0 :: "16 word \<Rightarrow> int" where
  "charCodeAt0 b = uint b"

text \<open>\<open>a << 5\<close>: the left operand is taken to a signed 32-bit integer, shifted, and read
  back as a signed 32-bit integer.\<close>

definition shl5 :: "int \<Rightarrow> int" where
  "shl5 a = sint (push_bit 5 (word_of_int a :: 32 word))"

subsection \<open>Decimal text: \<open>toFixed\<close> and \<open>parseFloat\<close>\<close>

definition digit_chars :: string where
  "digit_chars = ''0123456789''"

definition digit_char :: "nat \<Rightarrow> char" where
  "digit_char d = digit_chars ! d"

definition is_digit :: "char \<Rightarrow> bool" where
  "is_digit c = (c \<in> set digit_chars)"

definition digit_val :: "char \<Rightarrow> nat" where
  "digit_val c = length (takeWhile (\<lambda>d. d \<noteq> c) digit_chars)"

function show_nat :: "nat \<Rightarrow> string" where
  "show_nat n = (if n < 10 then [digit_char n] else show_nat (n div 10) @ [digit_char (n mod 10)])"
  by pat_completeness auto
termination
  by (relation "measure (\<lambda>n. n)") auto

declare show_nat.simps [simp del]

definition digits_val :: "string \<Rightarrow> nat" where
  "digits_val ds = foldl (\<lambda>a c. 10 * a + digit_val c) 0 ds"

text \<open>
  \<open>Number.prototype.toFixed(f)\<close> on a finite number \<open>x\<close> with \<open>\<bar>x\<bar> < 10 ^ 21\<close>: the
  sign, then the integer \<open>n\<close> nearest to \<open>\<bar>x\<bar> * 10 ^ f\<close> (the larger one on a tie), written
  in decimal, padded on the left with zeros to \<open>f + 1\<close> digits, with a point before the last
  \<open>f\<close> digits. From \<open>10 ^ 21\<close> on JavaScript prints exponent notation, which is left
  unspecified here; the program's numbers are below \<open>10 ^ 4\<close>.
\<close>

definition toFixed :: "nat \<Rightarrow> rat \<Rightarrow> string" where
  "toFixed f x =
     (if \<bar>x\<bar> \<ge> 10 ^ 21 then undefined
      else let s = (if x < 0 then ''-'' else '''');
               n = nat \<lfloor>\<bar>x\<bar> * 10 ^ f + 1 / 2\<rfloor>;
               m0 = show_nat n;
               m = (if f \<noteq> 0 \<and> length m0 \<le> f then replicate (f + 1 - length m0) CHR ''0'' @ m0 else m0);
               k = length m
           in if f \<noteq> 0 then s @ take (k - f) m @ ''.'' @ drop (k - f) m else s @ m)"

text \<open>
  \<open>parseFloat\<close> on an optionally signed decimal literal, with text after the literal
  ignored; \<open>None\<close> is \<open>NaN\<close>. Leading white space, exponents and \<open>Infinity\<close> are not
  modelled: the program applies \<open>parseFloat\<close> only to the text \<open>toFixed(1)\<close> returned.
\<close>

definition parse_unsigned :: "string \<Rightarrow> rat option" where
  "parse_unsigned s =
     (let ip = takeWhile is_digit s;
          rest = dropWhile is_digit s;
          fp = (case rest of [] \<Rightarrow> [] | c # r \<Rightarrow> if c = CHR ''.'' then takeWhile is_digit r else [])
      in if ip = [] \<and> fp = [] then None
         else Some (of_nat (digits_val ip) + of_nat (digits_val fp) / 10 ^ length fp))"

definition parseFloat :: "string \<Rightarrow> rat option" where
  "parseFloat s =
     (case s of
        [] \<Rightarrow> None
      | c # r \<Rightarrow>
          if c = CHR ''-'' then map_option uminus (parse_unsigned r)
          else if c = CHR ''+'' then parse_unsigned r
          else parse_unsigned s)"

section \<open>Fare table and mock distance\<close>

datatype vehicleType = Cab | Auto | Bike | Taxi

record vehicleRate =
  base :: int
  rate :: int

text \<open>\<open>VEHICLE_RATES\<close>, in cents and cents per kilometre.\<close>

fun VEHICLE_RATES :: "vehicleType \<Rightarrow> vehicleRate" where
  "VEHICLE_RATES Cab = \<lparr>base = 500, rate = 150\<rparr>"
| "VEHICLE_RATES Auto = \<lparr>base = 200, rate = 100\<rparr>"
| "VEHICLE_RATES Bike = \<lparr>base = 100, rate = 50\<rparr>"
| "VEHICLE_RATES Taxi = \<lparr>base = 600, rate = 180\<rparr>"

text \<open>\<open>s.split('').reduce((a, b) => ((a << 5) - a) + b.charCodeAt(0), 0)\<close>\<close>

definition hash :: "jsstring \<Rightarrow> int" where
  "hash s = foldl (\<lambda>a b. (shl5 a - a) + charCodeAt0 b) 0 s"

text \<open>The number \<open>dist\<close> of \<open>mockDistance\<close>, before it is printed.\<close>

definition mockDistanceKm :: "jsstring \<Rightarrow> jsstring \<Rightarrow> int" where
  "mockDistanceKm pickup dropoff = \<bar>hash pickup - hash dropoff\<bar> mod 20 + 5"

definition mockDistance :: "jsstring \<Rightarrow> jsstring \<Rightarrow> string" where
  "mockDistance pickup dropoff = toFixed 1 (of_int (mockDistanceKm pickup dropoff))"

text \<open>The fare of \<open>handleEstimate\<close>:
  \<open>(base + parseFloat(dist) * rate) / 100\<close>, \<open>None\<close> when \<open>parseFloat\<close> gives \<open>NaN\<close>.\<close>

definition fareOf :: "vehicleType \<Rightarrow> string \<Rightarrow> rat option" where
  "fareOf vt distText =
     (case parseFloat distText of
        None \<Rightarrow> None
      | Some d \<Rightarrow> Some ((of_int (base (VEHICLE_RATES vt)) + d * of_int (rate (VEHICLE_RATES vt))) / 100))"

text \<open>The table read in currency units, as the specification's \<open>baseFare\<close> and \<open>rate\<close>.\<close>

definition baseFare :: "vehicleType \<Rightarrow> rat" where
  "baseFare vt = of_int (base (VEHICLE_RATES vt)) / 100"

definition ratePerKm :: "vehicleType \<Rightarrow> rat" where
  "ratePerKm vt = of_int (rate (VEHICLE_RATES vt)) / 100"

section \<open>Identities, booking documents and the store\<close>

text \<open>The Firebase user object, as far as the program reads it; \<open>user\<close> itself may be
  \<open>null\<close> (\<open>None\<close>).\<close>

record user =
  uid :: string
  email :: "string option"
  isAnonymous :: bool

text \<open>\<open>user?.email\<close>: undefined without a user, and \<open>null\<close> without an e-mail address.\<close>

definition optEmail :: "user option \<Rightarrow> string option" where
  "optEmail u = (case u of None \<Rightarrow> None | Some v \<Rightarrow> email v)"

text \<open>The state of \<open>HomeView\<close>. \<open>timeouts\<close> holds the callbacks that \<open>handleEstimate\<close>
  has scheduled with \<open>setTimeout\<close> and that have not run yet, each with the fare text it
  will set.\<close>

record homeState =
  pickup :: jsstring
  dropoff :: jsstring
  vehicleType :: vehicleType
  date :: string
  time :: string
  fareEstimate :: "string option"
  distance :: "string option"
  isEstimating :: bool
  error :: "string option"
  timeouts :: "string list"

text \<open>The document that \<open>handleBooking\<close> writes: the fields of \<open>newBooking\<close>.
  \<open>createdAt\<close> is the time of creation as a number (milliseconds), which is how the sort of
  \<open>useBookings\<close> reads it when it subtracts two of them.\<close>

record bookingData =
  userId :: string
  userEmail :: string
  pickup :: jsstring
  dropoff :: jsstring
  vehicleType :: vehicleType
  distance :: string
  fare :: string
  dateTime :: string
  status :: string
  createdAt :: int
  paymentStatus :: string

text \<open>The object that \<open>useBookings\<close> builds from a document:
  \<open>{ id: doc.id, ...doc.data(), bookingDate: doc.data().bookingDate?.toDate() }\<close>.
  No document written by the program has a \<open>bookingDate\<close> field.\<close>

record booking = bookingData +
  bookingId :: string
  bookingDate :: "int option"

type_synonym store = "string \<rightharpoonup> bookingData"

datatype storeError = NotFound | Rejected

text \<open>Modelled from the spec: Firestore's \<open>addDoc\<close> is a library call, the \<open>create\<close> of
  the spec's store contract ("appends a new document, server-assigns id"). The id that the
  store assigns is an input; the store never assigns an id in use, and such an input is a
  rejected write.\<close>

definition addDoc :: "store \<Rightarrow> string \<Rightarrow> bookingData \<Rightarrow> storeError + store" where
  "addDoc st i d = (if st i \<noteq> None then Inl Rejected else Inr (st(i \<mapsto> d)))"

text \<open>Modelled from the spec: Firestore's \<open>updateDoc\<close> is a library call, the
  \<open>updateFields\<close> of the spec's store contract ("merges named fields into the existing
  document; fails with NotFound if id is absent"), here with the one field
  \<open>{ status: newStatus }\<close> that the program updates.\<close>

definition updateDoc :: "store \<Rightarrow> string \<Rightarrow> string \<Rightarrow> storeError + store" where
  "updateDoc st i newStatus =
     (case st i of
        None \<Rightarrow> Inl NotFound
      | Some d \<Rightarrow> Inr (st(i \<mapsto> d\<lparr>status := newStatus\<rparr>)))"

section \<open>HomeView: estimate and booking\<close>

text \<open>JavaScript truthiness of a string state variable that may be \<open>null\<close>.\<close>

definition truthy :: "string option \<Rightarrow> bool" where
  "truthy v = (case v of None \<Rightarrow> False | Some t \<Rightarrow> t \<noteq> [])"

text \<open>\<open>fare.toFixed(2)\<close>; \<open>NaN.toFixed(2)\<close> is the text \<open>NaN\<close>.\<close>

definition fareText :: "rat option \<Rightarrow> string" where
  "fareText f = (case f of None \<Rightarrow> ''NaN'' | Some x \<Rightarrow> toFixed 2 x)"

definition handleEstimate :: "homeState \<Rightarrow> homeState" where
  "handleEstimate s =
     (if homeState.pickup s = [] \<or> homeState.dropoff s = []
      then s\<lparr>error := Some ''Please enter both pickup and drop-off locations.'', fareEstimate := None\<rparr>
      else let d = mockDistance (homeState.pickup s) (homeState.dropoff s);
               f = fareOf (homeState.vehicleType s) d
           in s\<lparr>error := None, isEstimating := True, homeState.distance := Some d,
                timeouts := timeouts s @ [fareText f]\<rparr>)"

text \<open>The oldest scheduled callback runs:
  \<open>setFareEstimate(fare.toFixed(2)); setIsEstimating(false)\<close>.\<close>

definition timeoutFires :: "homeState \<Rightarrow> homeState" where
  "timeoutFires s =
     (case timeouts s of
        [] \<Rightarrow> s
      | f # fs \<Rightarrow> s\<lparr>fareEstimate := Some f, isEstimating := False, timeouts := fs\<rparr>)"

text \<open>What \<open>handleBooking\<close> takes from outside the component: the clock (\<open>new Date()\<close>),
  the text of \<open>new Date(`${date}T${time}`).toISOString()\<close> (\<open>None\<close> when the date is invalid
  and \<open>toISOString\<close> throws), and the id the store assigns to the new document.\<close>

record bookingEnv =
  now :: int
  isoDateTime :: "string option"
  assignedId :: string

record bookingResult =
  newStore :: store
  newState :: homeState
  alerts :: "string list"
  newPage :: "string option"

text \<open>\<open>`${distance} km`\<close>: a \<open>null\<close> state prints as \<open>null\<close>.\<close>

definition templateText :: "string option \<Rightarrow> string" where
  "templateText v = (case v of None \<Rightarrow> ''null'' | Some t \<Rightarrow> t)"

definition newBooking :: "user \<Rightarrow> homeState \<Rightarrow> int \<Rightarrow> string \<Rightarrow> bookingData" where
  "newBooking u s t isoText =
     \<lparr>userId = uid u,
      userEmail = (if truthy (email u) then the (email u) else ''Anonymous User''),
      pickup = homeState.pickup s,
      dropoff = homeState.dropoff s,
      vehicleType = homeState.vehicleType s,
      distance = templateText (homeState.distance s) @ '' km'',
      fare = ''$'' @ templateText (fareEstimate s),
      dateTime = isoText,
      status = ''Pending'',
      createdAt = t,
      paymentStatus = ''Pending''\<rparr>"

definition handleBooking :: "user option \<Rightarrow> bookingEnv \<Rightarrow> store \<Rightarrow> homeState \<Rightarrow> bookingResult" where
  "handleBooking usr env st s =
     (if usr = None \<or> isAnonymous (the usr)
      then \<lparr>newStore = st, newState = s,
            alerts = [''Please log in or sign up to complete a booking.''],
            newPage = Some ''login''\<rparr>
      else if \<not> truthy (fareEstimate s)
      then \<lparr>newStore = st, newState = handleEstimate s, alerts = [], newPage = None\<rparr>
      else let failed = \<lparr>newStore = st,
                           newState = s\<lparr>error := Some ''Failed to create booking. Please try again.''\<rparr>,
                           alerts = [], newPage = None\<rparr>
           in case isoDateTime env of
                None \<Rightarrow> failed
              | Some isoText \<Rightarrow>
                  (case addDoc st (assignedId env) (newBooking (the usr) s (now env) isoText) of
                     Inl e \<Rightarrow> failed
                   | Inr st' \<Rightarrow>
                       \<lparr>newStore = st',
                        newState = s\<lparr>error := None, homeState.pickup := [], homeState.dropoff := [],
                                     fareEstimate := None, homeState.distance := None\<rparr>,
                        alerts = [''Booking successful! Check My Bookings for status updates.''],
                        newPage = Some ''dashboard''\<rparr>))"

section \<open>useBookings: the snapshot listener\<close>

text \<open>\<open>Array.prototype.sort\<close> with a comparison function: a stable sort, the element \<open>x\<close>
  staying before \<open>y\<close> when \<open>cmp x y \<le> 0\<close>.\<close>

fun insert_sorted :: "('a \<Rightarrow> 'a \<Rightarrow> int) \<Rightarrow> 'a \<Rightarrow> 'a list \<Rightarrow> 'a list" where
  "insert_sorted cmp x [] = [x]"
| "insert_sorted cmp x (y # ys) = (if cmp x y \<le> 0 then x # y # ys else y # insert_sorted cmp x ys)"

definition array_sort :: "('a \<Rightarrow> 'a \<Rightarrow> int) \<Rightarrow> 'a list \<Rightarrow> 'a list" where
  "array_sort cmp xs = foldr (insert_sorted cmp) xs []"

text \<open>A snapshot is the list \<open>snapshot.docs\<close> of documents with their ids, in whatever order
  the store delivers them.\<close>

type_synonym snapshot = "(string \<times> bookingData) list"

definition toBooking :: "string \<times> bookingData \<Rightarrow> booking" where
  "toBooking doc = bookingData.extend (snd doc) (booking.fields (fst doc) None)"

text \<open>The callback given to \<open>onSnapshot\<close>: map, then sort with
  \<open>(a, b) => b.createdAt - a.createdAt\<close>.\<close>

definition onSnapshotBookings :: "snapshot \<Rightarrow> booking list" where
  "onSnapshotBookings docs = array_sort (\<lambda>a b. createdAt b - createdAt a) (map toBooking docs)"


section \<open>UserDashboardView\<close>




section \<open>AdminDashboardView\<close>

text \<open>What \<open>handleUpdateStatus\<close> reports: the \<open>console.log\<close> after the update, or the
  \<open>alert\<close> of the \<open>catch\<close> block.\<close>

datatype updateOutcome = StatusUpdated string string | FailedToUpdate storeError

definition handleUpdateStatus :: "store \<Rightarrow> string \<Rightarrow> string \<Rightarrow> store \<times> updateOutcome" where
  "handleUpdateStatus st i newStatus =
     (case updateDoc st i newStatus of
        Inr st' \<Rightarrow> (st', StatusUpdated i newStatus)
      | Inl e \<Rightarrow> (st, FailedToUpdate e))"

text \<open>The buttons of one table row, each with the arguments of its
  \<open>onClick={() => handleUpdateStatus(b.id, ...)}\<close>.\<close>

definition rowButtons :: "booking \<Rightarrow> (string \<times> string) list" where
  "rowButtons b =
     (if status b = ''Pending'' then [(bookingId b, ''Accepted'')] else []) @
     (if status b = ''Accepted'' then [(bookingId b, ''Completed'')] else []) @
     (if status b \<noteq> ''Canceled'' \<and> status b \<noteq> ''Completed'' then [(bookingId b, ''Canceled'')] else [])"

text \<open>The view, once loading has finished: the access-denied message, or the table with
  one row for each booking and the buttons of that row.\<close>

datatype adminDashboard = AccessDenied | AdminPanel "(booking \<times> (string \<times> string) list) list"

definition AdminDashboardView :: "user option \<Rightarrow> booking list \<Rightarrow> adminDashboard" where
  "AdminDashboardView usr bookings =
     (if optEmail usr \<noteq> Some ''admin@cabapp.com'' then AccessDenied
      else AdminPanel (map (\<lambda>b. (b, rowButtons b)) bookings))"

text \<open>The admin entry of \<open>navItems\<close> in \<open>Header\<close>:
  \<open>show: user && user.email === 'admin@cabapp.com'\<close>.\<close>

definition showAdminPanel :: "user option \<Rightarrow> bool" where
  "showAdminPanel usr = (usr \<noteq> None \<and> optEmail usr = Some ''admin@cabapp.com'')"

text \<open>The status buttons that a rendered dashboard contains.\<close>

definition statusButtons :: "adminDashboard \<Rightarrow> (string \<times> string) list" where
  "statusButtons v = (case v of AccessDenied \<Rightarrow> [] | AdminPanel rows \<Rightarrow> concat (map snd rows))"

text \<open>
  A status transition through the application: \<open>usr\<close> has the admin page open, rendered
  from \<open>bookings\<close> (the last snapshot the page has received, which may be older than the
  store), and asks for \<open>handleUpdateStatus(i, t)\<close>. Only a button of the rendered page can
  be clicked; for anything else there is no handler to run.
\<close>

datatype clickOutcome = Ran updateOutcome | NoSuchButton

definition clickStatusButton ::
  "user option \<Rightarrow> booking list \<Rightarrow> string \<times> string \<Rightarrow> store \<Rightarrow> store \<times> clickOutcome" where
  "clickStatusButton usr bookings btn st =
     (if btn \<in> set (statusButtons (AdminDashboardView usr bookings))
      then (fst (handleUpdateStatus st (fst btn) (snd btn)), Ran (snd (handleUpdateStatus st (fst btn) (snd btn))))
      else (st, NoSuchButton))"

section \<open>Runs of the application\<close>

text \<open>
  The writes that the program makes to the store: a submit of the booking form, in any
  session and with any form state, and a click on a status button, on an admin page rendered
  from any list of bookings.
\<close>

datatype event =
    Submit "user option" bookingEnv homeState
  | Click "user option" "booking list" "string \<times> string"

fun step :: "store \<Rightarrow> event \<Rightarrow> store" where
  "step st (Submit usr env s) = newStore (handleBooking usr env st s)"
| "step st (Click usr bookings btn) = fst (clickStatusButton usr bookings btn st)"

definition run :: "event list \<Rightarrow> store" where
  "run evs = foldl step Map.empty evs"

section \<open>HomeView as its user drives it\<close>

text \<open>The state of a freshly mounted \<open>HomeView\<close>: the initial values of its \<open>useState\<close>
  calls, with the date and time that the clock gives.\<close>

definition initialHome :: "string \<Rightarrow> string \<Rightarrow> homeState" where
  "initialHome d t =
     \<lparr>homeState.pickup = [], homeState.dropoff = [], homeState.vehicleType = Cab,
      date = d, time = t, fareEstimate = None, homeState.distance = None,
      isEstimating = False, error = None, timeouts = []\<rparr>"

text \<open>The two buttons of the form: Estimate Fare has
  \<open>disabled={isEstimating || !pickup || !dropoff}\<close>, and Book Now, the only submit button of
  the form, has \<open>disabled={!fareEstimate || isEstimating}\<close>. A disabled button takes no
  click, and a form whose submit button is disabled is not submitted by the Enter key.\<close>

definition estimateDisabled :: "homeState \<Rightarrow> bool" where
  "estimateDisabled s = (isEstimating s \<or> homeState.pickup s = [] \<or> homeState.dropoff s = [])"

definition bookDisabled :: "homeState \<Rightarrow> bool" where
  "bookDisabled s = (\<not> truthy (fareEstimate s) \<or> isEstimating s)"

text \<open>
  What can happen to one \<open>HomeView\<close>:
  \<^item> \<open>Mount\<close>: the view is mounted, on the first visit or on a return after any move to
    another page (which unmounts it; callbacks still scheduled then belong to the old
    instance and change nothing);
  \<^item> the \<open>onChange\<close> of the four inputs;
  \<^item> a vehicle button: \<open>setVehicleType(type); setFareEstimate(null)\<close>;
  \<^item> a click on Estimate Fare, and the oldest scheduled callback running;
  \<^item> \<open>SubmitForm\<close>: the form is submitted and \<open>handleBooking\<close> runs to its end;
  \<^item> \<open>SubmitPending\<close>: the form is submitted and \<open>handleBooking\<close> has issued its write
    but still waits at \<open>await addDoc\<close>, so the form is as it was; what follows later is
    \<open>BookingFailed\<close> (the \<open>catch\<close> block), or the move to another page and then \<open>Mount\<close>.
  The \<open>required\<close> attributes of the inputs, which stop more submits, are left out.
\<close>

datatype homeEvent =
    Mount string string
  | SetPickup jsstring
  | SetDropoff jsstring
  | SetDate string
  | SetTime string
  | SelectVehicle vehicleType
  | ClickEstimate
  | TimeoutFires
  | SubmitForm "user option" bookingEnv
  | SubmitPending "user option" bookingEnv
  | BookingFailed

fun mountedStep :: "store \<Rightarrow> homeState \<Rightarrow> homeEvent \<Rightarrow> store \<times> homeState" where
  "mountedStep st s (Mount d t) = (st, initialHome d t)"
| "mountedStep st s (SetPickup v) = (st, s\<lparr>homeState.pickup := v\<rparr>)"
| "mountedStep st s (SetDropoff v) = (st, s\<lparr>homeState.dropoff := v\<rparr>)"
| "mountedStep st s (SetDate v) = (st, s\<lparr>date := v\<rparr>)"
| "mountedStep st s (SetTime v) = (st, s\<lparr>time := v\<rparr>)"
| "mountedStep st s (SelectVehicle v) = (st, s\<lparr>homeState.vehicleType := v, fareEstimate := None\<rparr>)"
| "mountedStep st s ClickEstimate = (st, if estimateDisabled s then s else handleEstimate s)"
| "mountedStep st s TimeoutFires = (st, timeoutFires s)"
| "mountedStep st s (SubmitForm usr env) =
     (if bookDisabled s then (st, s)
      else (newStore (handleBooking usr env st s), newState (handleBooking usr env st s)))"
| "mountedStep st s (SubmitPending usr env) =
     (if bookDisabled s then (st, s) else (newStore (handleBooking usr env st s), s))"
| "mountedStep st s BookingFailed = (st, s\<lparr>error := Some ''Failed to create booking. Please try again.''\<rparr>)"

text \<open>A view that is not mounted takes no event but \<open>Mount\<close>.\<close>

fun homeStep :: "store \<Rightarrow> homeState option \<Rightarrow> homeEvent \<Rightarrow> store \<times> homeState option" where
  "homeStep st v (Mount d t) = (st, Some (initialHome d t))"
| "homeStep st None ev = (st, None)"
| "homeStep st (Some s) ev = (fst (mountedStep st s ev), Some (snd (mountedStep st s ev)))"

text \<open>The whole application: any number of browser sessions, each with its \<open>HomeView\<close>, and
  the clicks on the status buttons of admin pages, in any order.\<close>

datatype appEvent =
    Home nat homeEvent
  | Admin "user option" "booking list" "string \<times> string"

fun appStep :: "store \<times> (nat \<rightharpoonup> homeState) \<Rightarrow> appEvent \<Rightarrow> store \<times> (nat \<rightharpoonup> homeState)" where
  "appStep (st, hs) (Home k ev) = (fst (homeStep st (hs k) ev), hs(k := snd (homeStep st (hs k) ev)))"
| "appStep (st, hs) (Admin usr bookings btn) = (fst (clickStatusButton usr bookings btn st), hs)"

definition appRun :: "appEvent list \<Rightarrow> store \<times> (nat \<rightharpoonup> homeState)" where
  "appRun evs = foldl appStep (Map.empty, Map.empty) evs"

text \<open>A stored booking has a strictly positive distance and fare: its \<open>distance\<close> text reads
  as a number above 0, and its \<open>fare\<close> text is a dollar sign and a number above 0.\<close>

definition positiveBooking :: "bookingData \<Rightarrow> bool" where
  "positiveBooking doc =
     ((case parseFloat (bookingData.distance doc) of None \<Rightarrow> False | Some km \<Rightarrow> 0 < km) \<and>
      (case fare doc of
         [] \<Rightarrow> False
       | c # t \<Rightarrow> c = CHR ''$'' \<and> (case parseFloat t of None \<Rightarrow> False | Some f \<Rightarrow> 0 < f)))"

subsection \<open>Invariants of the form and of the store\<close>

text \<open>The texts that \<open>mockDistance\<close> can return, and the fare texts that \<open>handleEstimate\<close>
  can schedule from them.\<close>

definition distanceTexts :: "string list" where
  "distanceTexts = map (\<lambda>km. toFixed 1 (of_int km)) [5..24]"

definition fareTexts :: "string list" where
  "fareTexts =
     concat (map (\<lambda>vt. map (\<lambda>dt. fareText (fareOf vt dt)) distanceTexts) [Cab, Auto, Bike, Taxi])"

text \<open>The form: at most one callback is scheduled, and only while estimating; the fare
  shown and the fares scheduled are fare texts; and a distance text is there whenever a fare
  is shown or scheduled.\<close>

definition homeInv :: "homeState \<Rightarrow> bool" where
  "homeInv s =
     (length (timeouts s) \<le> 1 \<and>
      (timeouts s \<noteq> [] \<longrightarrow> isEstimating s) \<and>
      set (timeouts s) \<subseteq> set fareTexts \<and>
      (case fareEstimate s of None \<Rightarrow> True | Some f \<Rightarrow> f \<in> set fareTexts) \<and>
      (fareEstimate s \<noteq> None \<or> timeouts s \<noteq> [] \<longrightarrow>
         (case homeState.distance s of None \<Rightarrow> False | Some dt \<Rightarrow> dt \<in> set distanceTexts)))"

text \<open>The store: every booking carries a distance text and a fare text.\<close>

definition estimated :: "bookingData \<Rightarrow> bool" where
  "estimated doc =
     ((\<exists>dt \<in> set distanceTexts. bookingData.distance doc = dt @ '' km'') \<and>
      (\<exists>f \<in> set fareTexts. fare doc = ''$'' @ f))"

definition appInv :: "store \<times> (nat \<rightharpoonup> homeState) \<Rightarrow> bool" where
  "appInv w = ((\<forall>i doc. fst w i = Some doc \<longrightarrow> estimated doc) \<and>
               (\<forall>k s. snd w k = Some s \<longrightarrow> homeInv s))"

section \<open>The workflow table of the specification\<close>

text \<open>The edges of the specification's transition table: Pending to Accepted, Accepted to
  Completed, Pending to Canceled, Accepted to Canceled.\<close>

definition spec_edge :: "string \<Rightarrow> string \<Rightarrow> bool" where
  "spec_edge s t =
     ((s = ''Pending'' \<and> t = ''Accepted'') \<or> (s = ''Accepted'' \<and> t = ''Completed'') \<or>
      (s = ''Pending'' \<and> t = ''Canceled'') \<or> (s = ''Accepted'' \<and> t = ''Canceled''))"

definition statuses :: "string set" where
  "statuses = {''Pending'', ''Accepted'', ''Completed'', ''Canceled''}"

section \<open>Example data\<close>

definition exampleRider :: user where
  "exampleRider = \<lparr>uid = ''U1'', email = Some ''rider@example.com'', isAnonymous = False\<rparr>"

definition exampleAdmin :: user where
  "exampleAdmin = \<lparr>uid = ''A1'', email = Some ''admin@cabapp.com'', isAnonymous = False\<rparr>"

definition exampleGuest :: user where
  "exampleGuest = \<lparr>uid = ''G1'', email = None, isAnonymous = True\<rparr>"

text \<open>A form with pickup \<open>A\<close> and drop-off \<open>B\<close>, after its estimate has arrived.\<close>

definition exampleForm :: homeState where
  "exampleForm =
     \<lparr>homeState.pickup = [65], homeState.dropoff = [66], homeState.vehicleType = Cab,
      date = ''2024-01-01'', time = ''10:00'', fareEstimate = Some ''14.00'',
      homeState.distance = Some ''6.0'', isEstimating = False, error = None, timeouts = []\<rparr>"

definition exampleEnv :: bookingEnv where
  "exampleEnv = \<lparr>now = 1000, isoDateTime = Some ''2024-01-01T10:00:00.000Z'', assignedId = ''b1''\<rparr>"

text \<open>The document that \<open>exampleRider\<close> creates from \<open>exampleForm\<close>.\<close>

definition exampleDoc :: bookingData where
  "exampleDoc =
     \<lparr>userId = ''U1'', userEmail = ''rider@example.com'', pickup = [65], dropoff = [66],
      vehicleType = Cab, distance = ''6.0 km'', fare = ''$14.00'',
      dateTime = ''2024-01-01T10:00:00.000Z'', status = ''Pending'', createdAt = 1000,
      paymentStatus = ''Pending''\<rparr>"

text \<open>A second document, created later by another rider.\<close>

definition exampleDoc2 :: bookingData where
  "exampleDoc2 =
     \<lparr>userId = ''U2'', userEmail = ''other@example.com'', pickup = [67], dropoff = [68],
      vehicleType = Bike, distance = ''6.0 km'', fare = ''$4.00'',
      dateTime = ''2024-01-02T09:00:00.000Z'', status = ''Accepted'', createdAt = 2000,
      paymentStatus = ''Pending''\<rparr>"

text \<open>The admin page's bookings while the store holds only \<open>exampleDoc\<close>, as created.\<close>

definition exampleBookings :: "booking list" where
  "exampleBookings = onSnapshotBookings [(''b1'', exampleDoc)]"

text \<open>One session: a rider types the same place as pickup and drop-off, asks for the
  estimate, waits for it and books.\<close>

definition exampleSession :: "appEvent list" where
  "exampleSession =
     [Home 0 (Mount ''2024-01-01'' ''10:00''), Home 0 (SetPickup [65]), Home 0 (SetDropoff [65]),
      Home 0 ClickEstimate, Home 0 TimeoutFires, Home 0 (SubmitForm (Some exampleRider) exampleEnv)]"

text \<open>The document that this session stores.\<close>

definition exampleSameDoc :: bookingData where
  "exampleSameDoc =
     \<lparr>userId = ''U1'', userEmail = ''rider@example.com'', pickup = [65], dropoff = [65],
      vehicleType = Cab, distance = ''5.0 km'', fare = ''$12.50'',
      dateTime = ''2024-01-01T10:00:00.000Z'', status = ''Pending'', createdAt = 1000,
      paymentStatus = ''Pending''\<rparr>"

section \<open>Decimal text: printing and reading back\<close>

lemma digit_char_props: "d < 10 \<Longrightarrow> is_digit (digit_char d) \<and> digit_val (digit_char d) = d"
  by (auto simp add: is_digit_def digit_val_def digit_char_def digit_chars_def less_Suc_eq numeral_eq_Suc)

lemma is_digit_show_nat: "c \<in> set (show_nat n) \<Longrightarrow> is_digit c"
proof (induction n arbitrary: c rule: show_nat.induct)
  case (1 n)
  show ?case
  proof (cases "n < 10")
    case True
    with "1.prems" show ?thesis
      by (simp add: show_nat.simps [of n] digit_char_props)
  next
    case False
    with "1.prems" "1.IH" show ?thesis
      by (auto simp add: show_nat.simps [of n] digit_char_props)
  qed
qed

lemma digits_val_snoc: "digits_val (ds @ [c]) = 10 * digits_val ds + digit_val c"
  by (simp add: digits_val_def)

lemma digits_val_show_nat: "digits_val (show_nat n) = n"
proof (induction n rule: show_nat.induct)
  case (1 n)
  show ?case
  proof (cases "n < 10")
    case True
    then show ?thesis
      by (simp add: show_nat.simps [of n] digits_val_def digit_char_props)
  next
    case False
    with "1.IH" show ?thesis
      by (simp add: show_nat.simps [of n] digits_val_snoc digit_char_props)
  qed
qed

lemma show_nat_nonempty: "show_nat n \<noteq> []"
  by (simp add: show_nat.simps [of n])

lemma show_nat_times10: "0 < n \<Longrightarrow> show_nat (10 * n) = show_nat n @ ''0''"
  by (simp add: show_nat.simps [of "10 * n"] digit_char_def digit_chars_def)

lemma toFixed1_int:
  assumes "0 < n" "n < 10 ^ 21"
  shows "toFixed 1 (of_nat n) = show_nat n @ ''.0''"
proof -
  have fl: "nat \<lfloor>\<bar>of_nat n :: rat\<bar> * 10 ^ 1 + 1 / 2\<rfloor> = 10 * n"
  proof -
    have "\<lfloor>(of_nat n :: rat) * 10 + 1 / 2\<rfloor> = int (10 * n)"
      by (rule floor_unique) simp_all
    then show ?thesis by simp
  qed
  have small: "\<not> (\<bar>of_nat n :: rat\<bar> \<ge> 10 ^ 21)"
  proof -
    have "(of_nat n :: rat) < of_nat (10 ^ 21)"
      using assms(2) by (simp only: of_nat_less_iff)
    then show ?thesis by simp
  qed
  have len: "\<not> length (show_nat n @ ''0'') \<le> 1"
    using show_nat_nonempty [of n] by (cases "show_nat n") auto
  show ?thesis
    unfolding toFixed_def Let_def fl
    using small len assms(1) by (simp add: show_nat_times10)
qed

lemma takeWhile_digits: "takeWhile is_digit (show_nat n @ CHR ''.'' # r) = show_nat n"
proof -
  have "\<not> is_digit CHR ''.''" by (simp add: is_digit_def digit_chars_def)
  then show ?thesis
    by (simp add: takeWhile_append2 is_digit_show_nat)
qed

lemma dropWhile_digits: "dropWhile is_digit (show_nat n @ CHR ''.'' # r) = CHR ''.'' # r"
proof -
  have "\<not> is_digit CHR ''.''" by (simp add: is_digit_def digit_chars_def)
  then show ?thesis
    by (simp add: dropWhile_append2 is_digit_show_nat)
qed

lemma parse_unsigned_show: "parse_unsigned (show_nat n @ ''.0'') = Some (of_nat n)"
proof -
  have z: "is_digit CHR ''0''" "digits_val ''0'' = 0"
    by (simp_all add: is_digit_def digit_chars_def digits_val_def digit_val_def)
  show ?thesis
    unfolding parse_unsigned_def Let_def
    by (simp add: takeWhile_digits dropWhile_digits z show_nat_nonempty digits_val_show_nat)
qed

lemma hd_show_nat: "\<exists>c r. show_nat n = c # r \<and> is_digit c"
  using show_nat_nonempty [of n] is_digit_show_nat [of _ n]
  by (cases "show_nat n") auto

lemma parseFloat_show: "parseFloat (show_nat n @ ''.0'') = Some (of_nat n)"
proof -
  obtain c r where cr: "show_nat n = c # r" "is_digit c"
    using hd_show_nat by blast
  from cr(2) have "c \<noteq> CHR ''-''" "c \<noteq> CHR ''+''"
    by (auto simp add: is_digit_def digit_chars_def)
  then have "parseFloat (show_nat n @ ''.0'') = parse_unsigned (show_nat n @ ''.0'')"
    by (simp add: parseFloat_def cr(1))
  then show ?thesis by (simp add: parse_unsigned_show)
qed

lemma mockDistanceKm_range: "5 \<le> mockDistanceKm p d \<and> mockDistanceKm p d \<le> 24"
proof -
  have "0 \<le> \<bar>hash p - hash d\<bar> mod 20" "\<bar>hash p - hash d\<bar> mod 20 < 20"
    by simp_all
  then show ?thesis
    unfolding mockDistanceKm_def by linarith
qed

lemma shl5_bound: "- (2 ^ 31) \<le> shl5 a \<and> shl5 a < 2 ^ 31"
  unfolding shl5_def using sint_range_size [of "push_bit 5 (word_of_int a :: 32 word)"]
  by (simp add: word_size)

lemma charCode_bound: "0 \<le> charCodeAt0 b \<and> charCodeAt0 b < 2 ^ 16"
  unfolding charCodeAt0_def using uint_bounded [of b] by simp

lemma hash_bound_gen:
  "\<bar>foldl (\<lambda>a b. (shl5 a - a) + charCodeAt0 b) a0 s\<bar> \<le> \<bar>a0\<bar> + int (length s) * (2 ^ 31 + 2 ^ 16)"
proof (induction s arbitrary: a0)
  case Nil
  then show ?case by simp
next
  case (Cons b s)
  have step: "\<bar>(shl5 a0 - a0) + charCodeAt0 b\<bar> \<le> \<bar>a0\<bar> + (2 ^ 31 + 2 ^ 16)"
    using shl5_bound [of a0] charCode_bound [of b] by linarith
  have "\<bar>foldl (\<lambda>a b. (shl5 a - a) + charCodeAt0 b) ((shl5 a0 - a0) + charCodeAt0 b) s\<bar>
        \<le> \<bar>(shl5 a0 - a0) + charCodeAt0 b\<bar> + int (length s) * (2 ^ 31 + 2 ^ 16)"
    by (rule Cons.IH)
  with step show ?case
    by (simp add: algebra_simps)
qed

lemma hash_bound: "length s < 2 ^ 21 \<Longrightarrow> \<bar>hash s\<bar> < 2 ^ 53"
proof -
  assume len: "length s < 2 ^ 21"
  have "\<bar>hash s\<bar> \<le> int (length s) * (2 ^ 31 + 2 ^ 16)"
    using hash_bound_gen [of 0 s] by (simp add: hash_def)
  also have "\<dots> \<le> (2 ^ 21 - 1) * (2 ^ 31 + 2 ^ 16)"
  proof -
    have "int (length s) \<le> 2 ^ 21 - 1" using len by simp
    then show ?thesis by (rule mult_right_mono) simp
  qed
  also have "\<dots> < (2 ^ 53 :: int)" by simp
  finally show ?thesis .
qed

lemma parseFloat_km: "parseFloat (show_nat n @ ''.0 km'') = Some (of_nat n)"
proof -
  have z: "is_digit CHR ''0''" "\<not> is_digit CHR '' ''" "digits_val ''0'' = 0"
    by (simp_all add: is_digit_def digit_chars_def digits_val_def digit_val_def)
  have u: "parse_unsigned (show_nat n @ ''.0 km'') = Some (of_nat n)"
    unfolding parse_unsigned_def Let_def
    by (simp add: takeWhile_digits dropWhile_digits z show_nat_nonempty digits_val_show_nat)
  obtain c r where cr: "show_nat n = c # r" "is_digit c"
    using hd_show_nat by blast
  from cr(2) have "c \<noteq> CHR ''-''" "c \<noteq> CHR ''+''"
    by (auto simp add: is_digit_def digit_chars_def)
  then have "parseFloat (show_nat n @ ''.0 km'') = parse_unsigned (show_nat n @ ''.0 km'')"
    by (simp add: parseFloat_def cr(1))
  with u show ?thesis by simp
qed

lemma show_nat_hundreds:
  assumes "100 \<le> n"
  shows "show_nat n = show_nat (n div 100) @ [digit_char (n div 10 mod 10), digit_char (n mod 10)]"
proof -
  from assms have a: "\<not> n < 10" "\<not> n div 10 < 10"
    by simp_all
  have "show_nat n = show_nat (n div 10) @ [digit_char (n mod 10)]"
    using a(1) by (simp add: show_nat.simps [of n])
  also have "show_nat (n div 10) = show_nat (n div 10 div 10) @ [digit_char (n div 10 mod 10)]"
    using a(2) by (simp add: show_nat.simps [of "n div 10"])
  also have "n div 10 div 10 = n div 100"
    by (simp add: div_mult2_eq [symmetric])
  finally show ?thesis by simp
qed

lemma toFixed2_cents:
  assumes "100 \<le> n" "n < 10 ^ 23"
  shows "toFixed 2 (of_nat n / 100) =
         show_nat (n div 100) @ ''.'' @ [digit_char (n div 10 mod 10), digit_char (n mod 10)]"
proof -
  have fl: "nat \<lfloor>\<bar>of_nat n / 100 :: rat\<bar> * 10 ^ 2 + 1 / 2\<rfloor> = n"
  proof -
    have "\<lfloor>(of_nat n :: rat) + 1 / 2\<rfloor> = int n"
      by (rule floor_unique) simp_all
    then show ?thesis by simp
  qed
  have small: "\<not> (\<bar>of_nat n / 100 :: rat\<bar> \<ge> 10 ^ 21)"
  proof -
    have "(of_nat n :: rat) < of_nat (10 ^ 23)"
      using assms(2) by (simp only: of_nat_less_iff)
    then show ?thesis by simp
  qed
  have nonneg: "\<not> (of_nat n / 100 :: rat) < 0"
    by simp
  show ?thesis
    unfolding toFixed_def Let_def fl
    using small nonneg assms(2) by (simp add: show_nat_hundreds [OF assms(1)] show_nat_nonempty)
qed

lemma parseFloat_cents:
  assumes "d1 < 10" "d0 < 10"
  shows "parseFloat (show_nat a @ ''.'' @ [digit_char d1, digit_char d0]) =
         Some (of_nat a + of_nat (10 * d1 + d0) / 100)"
proof -
  have dg: "is_digit (digit_char d1)" "is_digit (digit_char d0)"
    "digit_val (digit_char d1) = d1" "digit_val (digit_char d0) = d0"
    using assms by (simp_all add: digit_char_props)
  have two: "digits_val [digit_char d1, digit_char d0] = 10 * d1 + d0"
    by (simp add: digits_val_def dg)
  have u: "parse_unsigned (show_nat a @ ''.'' @ [digit_char d1, digit_char d0]) =
         Some (of_nat a + of_nat (10 * d1 + d0) / 100)"
    unfolding parse_unsigned_def Let_def
    by (simp add: takeWhile_digits dropWhile_digits dg two show_nat_nonempty digits_val_show_nat)
  obtain c r where cr: "show_nat a = c # r" "is_digit c"
    using hd_show_nat by blast
  from cr(2) have "c \<noteq> CHR ''-''" "c \<noteq> CHR ''+''"
    by (auto simp add: is_digit_def digit_chars_def)
  then have "parseFloat (show_nat a @ ''.'' @ [digit_char d1, digit_char d0]) =
             parse_unsigned (show_nat a @ ''.'' @ [digit_char d1, digit_char d0])"
    by (simp add: parseFloat_def cr(1))
  with u show ?thesis by simp
qed

lemma parseFloat_toFixed2:
  assumes "100 \<le> n" "n < 10 ^ 23"
  shows "parseFloat (toFixed 2 (of_nat n / 100)) = Some (of_nat n / 100)"
proof -
  have m: "10 * (n div 10 mod 10) + n mod 10 = n mod 100"
    using mod_mult2_eq [of n 10 10] by simp
  have v: "(of_nat (n div 100) :: rat) + of_nat (n mod 100) / 100 = of_nat n / 100"
  proof -
    have "(of_nat (n div 100 * 100 + n mod 100) :: rat) = of_nat n"
      by (simp only: div_mult_mod_eq)
    then have e: "(of_nat (n div 100) :: rat) * 100 + of_nat (n mod 100) = of_nat n"
      by (simp only: of_nat_add of_nat_mult of_nat_numeral)
    have "(of_nat (n div 100) :: rat) + of_nat (n mod 100) / 100 =
          (of_nat (n div 100) * 100 + of_nat (n mod 100)) / 100"
      by (simp add: add_divide_distrib)
    also have "\<dots> = of_nat n / 100"
      by (simp only: e)
    finally show ?thesis .
  qed
  have d: "n div 10 mod 10 < 10" "n mod 10 < 10"
    by simp_all
  have "parseFloat (toFixed 2 (of_nat n / 100)) =
        Some (of_nat (n div 100) + of_nat (10 * (n div 10 mod 10) + n mod 10) / 100)"
    unfolding toFixed2_cents [OF assms] by (rule parseFloat_cents [OF d])
  also have "\<dots> = Some (of_nat n / 100)"
    by (simp only: m v)
  finally show ?thesis .
qed

section \<open>Sorting and the two projections\<close>








lemma status_toBooking: "status (toBooking doc) = status (snd doc)" "bookingId (toBooking doc) = fst doc"
  by (simp_all add: toBooking_def bookingData.extend_def booking.fields_def)



section \<open>The status workflow\<close>

lemma handleUpdateStatus_Some:
  "st i = Some d \<Longrightarrow> handleUpdateStatus st i t = (st(i \<mapsto> d\<lparr>status := t\<rparr>), StatusUpdated i t)"
  by (simp add: handleUpdateStatus_def updateDoc_def)

lemma handleUpdateStatus_None:
  "st i = None \<Longrightarrow> handleUpdateStatus st i t = (st, FailedToUpdate NotFound)"
  by (simp add: handleUpdateStatus_def updateDoc_def)

lemma rowButtons_iff:
  assumes "status b \<in> statuses"
  shows "(j, t) \<in> set (rowButtons b) \<longleftrightarrow> j = bookingId b \<and> spec_edge (status b) t"
proof -
  from assms consider "status b = ''Pending''" | "status b = ''Accepted''"
    | "status b = ''Completed''" | "status b = ''Canceled''"
    unfolding statuses_def by blast
  then show ?thesis
  proof cases
    case 1
    then show ?thesis by (simp add: rowButtons_def spec_edge_def) blast
  next
    case 2
    then show ?thesis by (simp add: rowButtons_def spec_edge_def) blast
  next
    case 3
    then show ?thesis by (simp add: rowButtons_def spec_edge_def)
  next
    case 4
    then show ?thesis by (simp add: rowButtons_def spec_edge_def)
  qed
qed

lemma rowButtons_subset:
  "set (rowButtons b) \<subseteq> {bookingId b} \<times> {''Accepted'', ''Completed'', ''Canceled''}"
  unfolding rowButtons_def by (simp add: subset_iff)

lemma rowButtons_fst: "btn \<in> set (rowButtons b) \<Longrightarrow> fst btn = bookingId b"
proof -
  assume "btn \<in> set (rowButtons b)"
  with rowButtons_subset [of b]
  have "btn \<in> {bookingId b} \<times> {''Accepted'', ''Completed'', ''Canceled''}"
    by (rule subsetD)
  then show ?thesis
    by (cases btn) (simp add: mem_Times_iff, blast)
qed

lemma rowButtons_snd:
  "btn \<in> set (rowButtons b) \<Longrightarrow> snd btn \<in> {''Accepted'', ''Completed'', ''Canceled''}"
proof -
  assume "btn \<in> set (rowButtons b)"
  with rowButtons_subset [of b]
  have "btn \<in> {bookingId b} \<times> {''Accepted'', ''Completed'', ''Canceled''}"
    by (rule subsetD)
  then show ?thesis
    by (cases btn) (simp add: mem_Times_iff, blast)
qed

lemma rowButtons_terminal:
  "status b = ''Completed'' \<or> status b = ''Canceled'' \<Longrightarrow> rowButtons b = []"
  by (auto simp add: rowButtons_def)

lemma statusButtons_admin:
  "btn \<in> set (statusButtons (AdminDashboardView usr bookings)) \<longleftrightarrow>
   optEmail usr = Some ''admin@cabapp.com'' \<and> (\<exists>b \<in> set bookings. btn \<in> set (rowButtons b))"
  by (auto simp add: statusButtons_def AdminDashboardView_def)

lemma click_other:
  "fst btn \<noteq> i \<Longrightarrow> fst (clickStatusButton usr bookings btn st) i = st i"
  by (cases "st (fst btn)")
     (simp_all add: clickStatusButton_def handleUpdateStatus_Some handleUpdateStatus_None)

lemma click_cases:
  "fst (clickStatusButton usr bookings btn st) = st \<or>
   (\<exists>d. st (fst btn) = Some d \<and> snd btn \<in> {''Accepted'', ''Completed'', ''Canceled''} \<and>
        fst (clickStatusButton usr bookings btn st) = st(fst btn \<mapsto> d\<lparr>status := snd btn\<rparr>))"
proof (cases "btn \<in> set (statusButtons (AdminDashboardView usr bookings))")
  case False
  then show ?thesis by (simp add: clickStatusButton_def)
next
  case True
  then obtain b where "btn \<in> set (rowButtons b)"
    by (auto simp add: statusButtons_admin)
  then have t: "snd btn \<in> {''Accepted'', ''Completed'', ''Canceled''}"
    by (rule rowButtons_snd)
  show ?thesis
  proof (cases "st (fst btn)")
    case None
    with True show ?thesis
      by (simp add: clickStatusButton_def handleUpdateStatus_None)
  next
    case (Some d)
    with True t show ?thesis
      by (simp add: clickStatusButton_def handleUpdateStatus_Some)
  qed
qed

lemma submit_cases:
  "newStore (handleBooking usr env st s) = st \<or>
   (\<exists>u isoText. st (assignedId env) = None \<and>
      newStore (handleBooking usr env st s) = st(assignedId env \<mapsto> newBooking u s (now env) isoText))"
  by (auto simp add: handleBooking_def addDoc_def Let_def split: option.splits)

lemma step_keeps_fields:
  assumes "st i = Some d"
  shows "\<exists>t. step st ev i = Some (d\<lparr>status := t\<rparr>)"
proof (cases ev)
  case (Submit usr env s)
  have same: "\<exists>t. Some d = Some (d\<lparr>status := t\<rparr>)"
    by (rule exI [of _ "status d"]) simp
  from submit_cases [of usr env st s] show ?thesis
  proof
    assume "newStore (handleBooking usr env st s) = st"
    with assms Submit have "step st ev i = Some d" by simp
    with same show ?thesis by simp
  next
    assume "\<exists>u isoText. st (assignedId env) = None \<and>
      newStore (handleBooking usr env st s) = st(assignedId env \<mapsto> newBooking u s (now env) isoText)"
    then obtain u isoText where fresh: "st (assignedId env) = None"
      and new: "newStore (handleBooking usr env st s) = st(assignedId env \<mapsto> newBooking u s (now env) isoText)"
      by blast
    from fresh assms have "assignedId env \<noteq> i" by auto
    with new assms Submit have "step st ev i = Some d" by simp
    with same show ?thesis by simp
  qed
next
  case (Click usr bookings btn)
  have same: "\<exists>t. Some d = Some (d\<lparr>status := t\<rparr>)"
    by (rule exI [of _ "status d"]) simp
  from click_cases [of usr bookings btn st] show ?thesis
  proof
    assume "fst (clickStatusButton usr bookings btn st) = st"
    with assms Click have "step st ev i = Some d" by simp
    with same show ?thesis by simp
  next
    assume "\<exists>d. st (fst btn) = Some d \<and> snd btn \<in> {''Accepted'', ''Completed'', ''Canceled''} \<and>
        fst (clickStatusButton usr bookings btn st) = st(fst btn \<mapsto> d\<lparr>status := snd btn\<rparr>)"
    then obtain d' where d': "st (fst btn) = Some d'"
      and upd: "fst (clickStatusButton usr bookings btn st) = st(fst btn \<mapsto> d'\<lparr>status := snd btn\<rparr>)"
      by blast
    show ?thesis
    proof (cases "fst btn = i")
      case True
      with d' assms have "d' = d" by simp
      with upd True Click have "step st ev i = Some (d\<lparr>status := snd btn\<rparr>)" by simp
      then show ?thesis by (rule exI)
    next
      case False
      with upd Click assms have "step st ev i = Some d" by simp
      with same show ?thesis by simp
    qed
  qed
qed

lemma steps_keep_fields:
  "st i = Some d \<Longrightarrow> \<exists>t. foldl step st evs i = Some (d\<lparr>status := t\<rparr>)"
proof (induction evs arbitrary: st d)
  case Nil
  have "\<exists>t. Some d = Some (d\<lparr>status := t\<rparr>)"
    by (rule exI [of _ "status d"]) simp
  with Nil show ?case by simp
next
  case (Cons ev evs)
  from step_keeps_fields [of st i d ev, OF Cons.prems]
  obtain t where t: "step st ev i = Some (d\<lparr>status := t\<rparr>)" by blast
  from Cons.IH [of "step st ev" "d\<lparr>status := t\<rparr>", OF t] obtain t' where "foldl step (step st ev) evs i = Some (d\<lparr>status := t, status := t'\<rparr>)"
    by blast
  then show ?case by auto
qed

lemma step_statuses:
  assumes inv: "\<And>i d. st i = Some d \<Longrightarrow> status d \<in> statuses"
    and new: "step st ev i = Some d"
  shows "status d \<in> statuses"
proof (cases ev)
  case (Submit usr env s)
  from submit_cases [of usr env st s] show ?thesis
  proof
    assume "newStore (handleBooking usr env st s) = st"
    with new Submit inv show ?thesis by simp
  next
    assume "\<exists>u isoText. st (assignedId env) = None \<and>
      newStore (handleBooking usr env st s) = st(assignedId env \<mapsto> newBooking u s (now env) isoText)"
    then obtain u isoText where
      "newStore (handleBooking usr env st s) = st(assignedId env \<mapsto> newBooking u s (now env) isoText)"
      by blast
    with new Submit inv show ?thesis
      by (cases "assignedId env = i") (auto simp add: newBooking_def statuses_def)
  qed
next
  case (Click usr bookings btn)
  from click_cases [of usr bookings btn st] show ?thesis
  proof
    assume "fst (clickStatusButton usr bookings btn st) = st"
    with new Click inv show ?thesis by simp
  next
    assume "\<exists>d. st (fst btn) = Some d \<and> snd btn \<in> {''Accepted'', ''Completed'', ''Canceled''} \<and>
        fst (clickStatusButton usr bookings btn st) = st(fst btn \<mapsto> d\<lparr>status := snd btn\<rparr>)"
    then obtain d' where t: "snd btn \<in> {''Accepted'', ''Completed'', ''Canceled''}"
      and upd: "fst (clickStatusButton usr bookings btn st) = st(fst btn \<mapsto> d'\<lparr>status := snd btn\<rparr>)"
      by blast
    show ?thesis
    proof (cases "fst btn = i")
      case True
      with upd new Click have "status d = snd btn" by auto
      with t show ?thesis by (auto simp add: statuses_def)
    next
      case False
      with upd new Click inv show ?thesis by simp
    qed
  qed
qed

lemma steps_statuses:
  "(\<And>i d. st i = Some d \<Longrightarrow> status d \<in> statuses) \<Longrightarrow> foldl step st evs i = Some d \<Longrightarrow>
   status d \<in> statuses"
proof (induction evs arbitrary: st)
  case Nil
  then show ?case by simp
next
  case (Cons ev evs)
  show ?case
  proof (rule Cons.IH)
    show "status d' \<in> statuses" if "step st ev j = Some d'" for j d'
      using Cons.prems(1) that by (rule step_statuses)
    show "foldl step (step st ev) evs i = Some d"
      using Cons.prems(2) by simp
  qed
qed

section \<open>Distance and fare\<close>

lemma mockDistance_text:
  "mockDistance p d = show_nat (nat (mockDistanceKm p d)) @ ''.0''"
proof -
  have r: "5 \<le> mockDistanceKm p d" "mockDistanceKm p d \<le> 24"
    using mockDistanceKm_range [of p d] by simp_all
  then have n: "0 < nat (mockDistanceKm p d)" "nat (mockDistanceKm p d) < 10 ^ 21"
    by simp_all
  have "(of_nat (nat (mockDistanceKm p d)) :: rat) = of_int (mockDistanceKm p d)"
    using r(1) by simp
  with toFixed1_int [OF n] show ?thesis
    unfolding mockDistance_def by (simp only:)
qed

lemma parseFloat_mockDistance:
  "parseFloat (mockDistance p d) = Some (of_int (mockDistanceKm p d))"
proof -
  have "5 \<le> mockDistanceKm p d"
    using mockDistanceKm_range [of p d] by simp
  then have "(of_nat (nat (mockDistanceKm p d)) :: rat) = of_int (mockDistanceKm p d)"
    by simp
  then show ?thesis
    by (simp add: mockDistance_text parseFloat_show)
qed

lemma fareOf_general:
  "fareOf vt distText = map_option (\<lambda>d. baseFare vt + ratePerKm vt * d) (parseFloat distText)"
  by (cases "parseFloat distText")
     (simp_all add: fareOf_def baseFare_def ratePerKm_def add_divide_distrib mult.commute)

lemma baseFare_pos: "0 < baseFare vt" and ratePerKm_pos: "0 < ratePerKm vt"
  by (cases vt; simp add: baseFare_def ratePerKm_def)+

lemma toFixed2_nonempty: "\<bar>x\<bar> < 10 ^ 21 \<Longrightarrow> toFixed 2 x \<noteq> []"
  by (simp add: toFixed_def Let_def)

lemma fare_mockDistance_bounds:
  "0 < baseFare vt + ratePerKm vt * of_int (mockDistanceKm p d) \<and>
   baseFare vt + ratePerKm vt * of_int (mockDistanceKm p d) < 100"
proof -
  have r: "5 \<le> mockDistanceKm p d" "mockDistanceKm p d \<le> 24"
    using mockDistanceKm_range [of p d] by simp_all
  have lo: "(0 :: rat) \<le> of_int (mockDistanceKm p d)"
    using r(1) by simp
  have hi: "(of_int (mockDistanceKm p d) :: rat) \<le> 24"
  proof -
    from r(2) have "(of_int (mockDistanceKm p d) :: rat) \<le> of_int 24"
      by (simp only: of_int_le_iff)
    then show ?thesis by simp
  qed
  show ?thesis
    using lo hi by (cases vt) (simp_all add: baseFare_def ratePerKm_def)
qed

lemma fareText_mockDistance_nonempty: "fareText (fareOf vt (mockDistance p d)) \<noteq> []"
proof -
  have "\<bar>baseFare vt + ratePerKm vt * of_int (mockDistanceKm p d)\<bar> < 10 ^ 21"
    using fare_mockDistance_bounds [of vt p d] by simp
  then show ?thesis
    by (simp add: fareOf_general parseFloat_mockDistance fareText_def toFixed2_nonempty)
qed

lemma booking_after_estimate:
  assumes "homeState.pickup s \<noteq> []" "homeState.dropoff s \<noteq> []" "timeouts s = []"
    and "\<not> isAnonymous u" "isoDateTime env = Some isoText" "st (assignedId env) = None"
  shows "newStore (handleBooking (Some u) env st (timeoutFires (handleEstimate s))) (assignedId env) =
         Some (newBooking u (timeoutFires (handleEstimate s)) (now env) isoText)"
    and "bookingData.distance (newBooking u (timeoutFires (handleEstimate s)) (now env) isoText) =
         mockDistance (homeState.pickup s) (homeState.dropoff s) @ '' km''"
    and "fare (newBooking u (timeoutFires (handleEstimate s)) (now env) isoText) =
         ''$'' @ fareText (fareOf (homeState.vehicleType s)
                  (mockDistance (homeState.pickup s) (homeState.dropoff s)))"
proof -
  let ?f = "fareText (fareOf (homeState.vehicleType s)
                  (mockDistance (homeState.pickup s) (homeState.dropoff s)))"
  have est: "timeoutFires (handleEstimate s) =
     s\<lparr>error := None, homeState.distance := Some (mockDistance (homeState.pickup s) (homeState.dropoff s)),
       fareEstimate := Some ?f, isEstimating := False, timeouts := []\<rparr>"
    using assms(1-3) by (simp add: handleEstimate_def timeoutFires_def Let_def)
  have tr: "truthy (Some ?f)"
    by (simp add: truthy_def fareText_mockDistance_nonempty)
  show "newStore (handleBooking (Some u) env st (timeoutFires (handleEstimate s))) (assignedId env) =
         Some (newBooking u (timeoutFires (handleEstimate s)) (now env) isoText)"
    unfolding est using assms(4-6) tr by (simp add: handleBooking_def addDoc_def)
  show "bookingData.distance (newBooking u (timeoutFires (handleEstimate s)) (now env) isoText) =
         mockDistance (homeState.pickup s) (homeState.dropoff s) @ '' km''"
    unfolding est by (simp add: newBooking_def templateText_def)
  show "fare (newBooking u (timeoutFires (handleEstimate s)) (now env) isoText) = ''$'' @ ?f"
    unfolding est by (simp add: newBooking_def templateText_def)
qed

section \<open>The booking form and what it stores\<close>

lemma toFixed1_km:
  assumes "5 \<le> km" "km \<le> 24"
  shows "toFixed 1 (of_int km) = show_nat (nat km) @ ''.0''"
proof -
  from assms have n: "0 < nat km" "nat km < 10 ^ 21"
    by simp_all
  have "(of_nat (nat km) :: rat) = of_int km"
    using assms(1) by simp
  with toFixed1_int [OF n] show ?thesis
    by (simp only:)
qed

lemma mockDistance_in_distanceTexts: "mockDistance p d \<in> set distanceTexts"
proof -
  have "mockDistanceKm p d \<in> set [5..24]"
    using mockDistanceKm_range [of p d] by (simp only: set_upto atLeastAtMost_iff)
  then show ?thesis
    unfolding distanceTexts_def mockDistance_def by (simp only: set_map) (rule imageI)
qed

lemma distanceTexts_cases:
  assumes "dt \<in> set distanceTexts"
  obtains km where "5 \<le> km" "km \<le> 24" "dt = show_nat (nat km) @ ''.0''"
proof -
  from assms obtain km where "km \<in> set [5..24]" "dt = toFixed 1 (of_int km)"
    unfolding distanceTexts_def by (auto simp only: set_map)
  then have r: "5 \<le> km" "km \<le> 24" and t: "dt = toFixed 1 (of_int km)"
    by (simp_all only: set_upto atLeastAtMost_iff)
  from t have "dt = show_nat (nat km) @ ''.0''"
    by (simp only: toFixed1_km [OF r])
  with r show ?thesis by (rule that)
qed

lemma fareOf_distanceText:
  assumes "5 \<le> km" "km \<le> 24"
  shows "\<exists>n. 100 \<le> n \<and> n < 10 ^ 23 \<and>
           fareOf vt (show_nat (nat km) @ ''.0'') = Some (of_nat n / 100)"
proof -
  let ?c = "base (VEHICLE_RATES vt) + km * rate (VEHICLE_RATES vt)"
  have pf: "parseFloat (show_nat (nat km) @ ''.0'') = Some (of_int km)"
    using assms(1) by (simp add: parseFloat_show)
  have c: "100 \<le> ?c" "?c < 10 ^ 23"
    using assms by (cases vt; simp)+
  have "fareOf vt (show_nat (nat km) @ ''.0'') = Some (of_int ?c / 100)"
    by (simp add: fareOf_def pf)
  also have "(of_int ?c :: rat) = of_nat (nat ?c)"
    using c(1) by simp
  finally have "fareOf vt (show_nat (nat km) @ ''.0'') = Some (of_nat (nat ?c) / 100)" .
  moreover have "100 \<le> nat ?c" "nat ?c < 10 ^ 23"
    using c by simp_all
  ultimately show ?thesis by blast
qed

lemma fareTexts_cases:
  assumes "f \<in> set fareTexts"
  obtains n where "100 \<le> n" "n < 10 ^ 23" "f = toFixed 2 (of_nat n / 100)"
proof -
  from assms obtain vt dt where dt: "dt \<in> set distanceTexts" and f: "f = fareText (fareOf vt dt)"
    unfolding fareTexts_def by auto
  from dt obtain km where km: "5 \<le> km" "km \<le> 24" "dt = show_nat (nat km) @ ''.0''"
    by (rule distanceTexts_cases)
  from fareOf_distanceText [OF km(1,2), of vt] obtain n where
    n: "100 \<le> n" "n < 10 ^ 23" "fareOf vt (show_nat (nat km) @ ''.0'') = Some (of_nat n / 100)"
    by blast
  from f km(3) n(3) have "f = toFixed 2 (of_nat n / 100)"
    by (simp add: fareText_def)
  with n(1,2) show ?thesis by (rule that)
qed

lemma fareText_in_fareTexts:
  "fareText (fareOf vt (mockDistance p d)) \<in> set fareTexts"
proof -
  have "vt \<in> set [Cab, Auto, Bike, Taxi]"
    by (cases vt) simp_all
  with mockDistance_in_distanceTexts [of p d] show ?thesis
    unfolding fareTexts_def by auto
qed

lemma fareTexts_nonempty: "f \<in> set fareTexts \<Longrightarrow> f \<noteq> []"
proof -
  assume "f \<in> set fareTexts"
  then obtain n where "100 \<le> n" "n < 10 ^ 23" "f = toFixed 2 (of_nat n / 100)"
    by (rule fareTexts_cases)
  then show ?thesis
    by (simp add: toFixed2_cents show_nat_nonempty)
qed

lemma estimated_positive: "estimated doc \<Longrightarrow> positiveBooking doc"
proof -
  assume "estimated doc"
  then obtain dt f where dt: "dt \<in> set distanceTexts" "bookingData.distance doc = dt @ '' km''"
    and f: "f \<in> set fareTexts" "fare doc = ''$'' @ f"
    unfolding estimated_def by blast
  from dt(1) obtain km where km: "5 \<le> km" "km \<le> 24" "dt = show_nat (nat km) @ ''.0''"
    by (rule distanceTexts_cases)
  have "parseFloat (bookingData.distance doc) = Some (of_nat (nat km))"
    using parseFloat_km [of "nat km"] by (simp add: dt(2) km(3))
  moreover have "(0 :: rat) < of_nat (nat km)"
    using km(1) by simp
  ultimately have a: "case parseFloat (bookingData.distance doc) of None \<Rightarrow> False | Some x \<Rightarrow> 0 < x"
    by simp
  from f(1) obtain n where n: "100 \<le> n" "n < 10 ^ 23" "f = toFixed 2 (of_nat n / 100)"
    by (rule fareTexts_cases)
  have "parseFloat f = Some (of_nat n / 100)"
    unfolding n(3) by (rule parseFloat_toFixed2 [OF n(1,2)])
  moreover have "(0 :: rat) < of_nat n / 100"
    using n(1) by simp
  ultimately have b: "case parseFloat f of None \<Rightarrow> False | Some x \<Rightarrow> 0 < x"
    by simp
  from a b show ?thesis
    by (simp add: positiveBooking_def f(2))
qed

lemma homeInv_initialHome: "homeInv (initialHome d t)"
  by (simp add: homeInv_def initialHome_def)

lemma homeInv_handleEstimate:
  assumes "homeInv s" "\<not> estimateDisabled s"
  shows "homeInv (handleEstimate s)"
proof -
  from assms(2) have g: "\<not> isEstimating s" "homeState.pickup s \<noteq> []" "homeState.dropoff s \<noteq> []"
    by (simp_all add: estimateDisabled_def)
  from assms(1) g(1) have t: "timeouts s = []"
    by (auto simp add: homeInv_def)
  from assms(1) have f: "case fareEstimate s of None \<Rightarrow> True | Some f \<Rightarrow> f \<in> set fareTexts"
    by (simp add: homeInv_def)
  show ?thesis
    using g t f
    by (simp add: homeInv_def handleEstimate_def Let_def fareText_in_fareTexts
        mockDistance_in_distanceTexts)
qed

lemma homeInv_timeoutFires:
  assumes "homeInv s"
  shows "homeInv (timeoutFires s)"
proof (cases "timeouts s")
  case Nil
  with assms show ?thesis by (simp add: timeoutFires_def)
next
  case (Cons f fs)
  with assms have fs: "fs = []" and f: "f \<in> set fareTexts"
    and d: "case homeState.distance s of None \<Rightarrow> False | Some dt \<Rightarrow> dt \<in> set distanceTexts"
    by (simp_all add: homeInv_def)
  show ?thesis
    using Cons fs f d by (simp add: homeInv_def timeoutFires_def)
qed

lemma homeInv_handleBooking:
  assumes "homeInv s" "\<not> bookDisabled s"
  shows "homeInv (newState (handleBooking usr env st s))"
proof -
  from assms(2) have g: "truthy (fareEstimate s)" "\<not> isEstimating s"
    by (simp_all add: bookDisabled_def)
  from assms(1) g(2) have t: "timeouts s = []"
    by (auto simp add: homeInv_def)
  have err: "homeInv (s\<lparr>error := e\<rparr>)" for e
    using assms(1) by (simp add: homeInv_def)
  have reset: "homeInv (s\<lparr>error := None, homeState.pickup := [], homeState.dropoff := [],
                          fareEstimate := None, homeState.distance := None\<rparr>)"
    using t by (simp add: homeInv_def)
  show ?thesis
    using assms(1) g(1) err reset
    by (simp add: handleBooking_def Let_def split: option.splits sum.splits)
qed

lemma homeInv_mountedStep:
  assumes "homeInv s"
  shows "homeInv (snd (mountedStep st s ev))"
proof (cases ev)
  case (Mount d t)
  then show ?thesis by (simp add: homeInv_initialHome)
next
  case ClickEstimate
  with assms show ?thesis by (simp add: homeInv_handleEstimate)
next
  case TimeoutFires
  with assms show ?thesis by (simp add: homeInv_timeoutFires)
next
  case (SubmitForm usr env)
  with assms show ?thesis by (simp add: homeInv_handleBooking)
next
  case (SubmitPending usr env)
  with assms show ?thesis by simp
qed (use assms in \<open>simp_all add: homeInv_def\<close>)

lemma estimated_newBooking:
  assumes "homeInv s" "\<not> bookDisabled s"
  shows "estimated (newBooking u s t isoText)"
proof -
  from assms(2) obtain f where f: "fareEstimate s = Some f"
    by (cases "fareEstimate s") (simp_all add: bookDisabled_def truthy_def)
  with assms(1) have ft: "f \<in> set fareTexts"
    by (simp add: homeInv_def)
  from assms(1) f obtain dt where dt: "homeState.distance s = Some dt" "dt \<in> set distanceTexts"
    by (cases "homeState.distance s") (simp_all add: homeInv_def)
  show ?thesis
    using f ft dt by (simp add: estimated_def newBooking_def templateText_def)
qed

lemma estimated_handleBooking:
  assumes docs: "\<And>i doc. st i = Some doc \<Longrightarrow> estimated doc"
    and "homeInv s" "\<not> bookDisabled s"
    and new: "newStore (handleBooking usr env st s) i = Some doc"
  shows "estimated doc"
proof -
  from submit_cases [of usr env st s] show ?thesis
  proof
    assume "newStore (handleBooking usr env st s) = st"
    with new docs show ?thesis by simp
  next
    assume "\<exists>u isoText. st (assignedId env) = None \<and>
      newStore (handleBooking usr env st s) = st(assignedId env \<mapsto> newBooking u s (now env) isoText)"
    then obtain u isoText where
      "newStore (handleBooking usr env st s) = st(assignedId env \<mapsto> newBooking u s (now env) isoText)"
      by blast
    with new docs estimated_newBooking [OF assms(2,3), of u "now env" isoText] show ?thesis
      by (cases "assignedId env = i") auto
  qed
qed

lemma estimated_mountedStep:
  assumes docs: "\<And>i doc. st i = Some doc \<Longrightarrow> estimated doc"
    and "homeInv s"
    and new: "fst (mountedStep st s ev) i = Some doc"
  shows "estimated doc"
proof (cases ev)
  case (SubmitForm usr env)
  show ?thesis
  proof (cases "bookDisabled s")
    case True
    with new SubmitForm docs show ?thesis by simp
  next
    case False
    with new SubmitForm have "newStore (handleBooking usr env st s) i = Some doc" by simp
    with docs assms(2) False show ?thesis by (rule estimated_handleBooking)
  qed
next
  case (SubmitPending usr env)
  show ?thesis
  proof (cases "bookDisabled s")
    case True
    with new SubmitPending docs show ?thesis by simp
  next
    case False
    with new SubmitPending have "newStore (handleBooking usr env st s) i = Some doc" by simp
    with docs assms(2) False show ?thesis by (rule estimated_handleBooking)
  qed
qed (use new docs in simp_all)

lemma estimated_status: "estimated (doc\<lparr>status := t\<rparr>) = estimated doc"
  by (simp add: estimated_def)

lemma estimated_click:
  assumes docs: "\<And>i doc. st i = Some doc \<Longrightarrow> estimated doc"
    and new: "fst (clickStatusButton usr bookings btn st) i = Some doc"
  shows "estimated doc"
proof -
  from click_cases [of usr bookings btn st] show ?thesis
  proof
    assume "fst (clickStatusButton usr bookings btn st) = st"
    with new docs show ?thesis by simp
  next
    assume "\<exists>d. st (fst btn) = Some d \<and> snd btn \<in> {''Accepted'', ''Completed'', ''Canceled''} \<and>
        fst (clickStatusButton usr bookings btn st) = st(fst btn \<mapsto> d\<lparr>status := snd btn\<rparr>)"
    then obtain d where d: "st (fst btn) = Some d"
      and upd: "fst (clickStatusButton usr bookings btn st) = st(fst btn \<mapsto> d\<lparr>status := snd btn\<rparr>)"
      by blast
    from docs d have "estimated d" by simp
    with upd new docs show ?thesis
      by (cases "fst btn = i") (auto simp add: estimated_status)
  qed
qed

lemma appInv_appStep:
  assumes "appInv w"
  shows "appInv (appStep w ev)"
proof -
  obtain st hs where w: "w = (st, hs)" by (cases w)
  from assms w have docs: "\<And>i doc. st i = Some doc \<Longrightarrow> estimated doc"
    and homes: "\<And>k s. hs k = Some s \<Longrightarrow> homeInv s"
    by (simp_all add: appInv_def)
  show ?thesis
  proof (cases ev)
    case (Admin usr bookings btn)
    with w docs homes show ?thesis
      by (auto simp add: appInv_def dest: estimated_click [rotated])
  next
    case (Home k hev)
    show ?thesis
    proof (cases "\<exists>d t. hev = Mount d t")
      case True
      then obtain d t where "hev = Mount d t" by blast
      with w Home docs homes show ?thesis
        by (auto simp add: appInv_def homeInv_initialHome)
    next
      case notMount: False
      show ?thesis
      proof (cases "hs k")
        case None
        with notMount have "homeStep st (hs k) hev = (st, None)"
          by (cases hev) simp_all
        with w Home None docs homes show ?thesis
          by (auto simp add: appInv_def)
      next
        case (Some s)
        with notMount have hstep: "homeStep st (hs k) hev =
            (fst (mountedStep st s hev), Some (snd (mountedStep st s hev)))"
          by (cases hev) simp_all
        from Some homes have inv: "homeInv s" by simp
        have d': "estimated doc" if "fst (mountedStep st s hev) i = Some doc" for i doc
          using docs inv that by (rule estimated_mountedStep)
        have h': "homeInv (snd (mountedStep st s hev))"
          using inv by (rule homeInv_mountedStep)
        from w Home hstep d' h' homes show ?thesis
          by (auto simp add: appInv_def)
      qed
    qed
  qed
qed

lemma appInv_foldl: "appInv w \<Longrightarrow> appInv (foldl appStep w evs)"
  by (induction evs arbitrary: w) (simp_all add: appInv_appStep)

lemma appInv_appRun: "appInv (appRun evs)"
  unfolding appRun_def by (rule appInv_foldl) (simp add: appInv_def)

lemma appRun_positive:
  assumes "fst (appRun evs) i = Some doc"
  shows "estimated doc" and "positiveBooking doc"
proof -
  from appInv_appRun [of evs] assms show "estimated doc"
    by (simp add: appInv_def)
  then show "positiveBooking doc"
    by (rule estimated_positive)
qed

lemma estimated_distance:
  assumes "estimated doc"
  shows "\<exists>km. parseFloat (bookingData.distance doc) = Some km \<and> 5 \<le> km \<and> km \<le> 249 / 10"
proof -
  from assms obtain dt where dt: "dt \<in> set distanceTexts" "bookingData.distance doc = dt @ '' km''"
    unfolding estimated_def by blast
  from dt(1) obtain km where km: "5 \<le> km" "km \<le> 24" "dt = show_nat (nat km) @ ''.0''"
    by (rule distanceTexts_cases)
  have p: "parseFloat (bookingData.distance doc) = Some (of_nat (nat km))"
    using parseFloat_km [of "nat km"] by (simp add: dt(2) km(3))
  have "(5 :: rat) \<le> of_nat (nat km)" "(of_nat (nat km) :: rat) \<le> 249 / 10"
  proof -
    from km(1) have "(of_nat 5 :: rat) \<le> of_nat (nat km)"
      by simp
    then show "(5 :: rat) \<le> of_nat (nat km)" by simp
    from km(2) have "(of_nat (nat km) :: rat) \<le> of_nat 24"
      by simp
    then show "(of_nat (nat km) :: rat) \<le> 249 / 10" by simp
  qed
  with p show ?thesis by blast
qed

section \<open>The examples, evaluated\<close>

lemma example_created:
  "newStore (handleBooking (Some exampleRider) exampleEnv Map.empty exampleForm) = [''b1'' \<mapsto> exampleDoc]"
  by (simp add: handleBooking_def exampleRider_def exampleEnv_def exampleForm_def exampleDoc_def
      truthy_def addDoc_def newBooking_def templateText_def)

lemma exampleBookings_eq:
  "exampleBookings = [toBooking (''b1'', exampleDoc)]"
  by (simp add: exampleBookings_def onSnapshotBookings_def array_sort_def)

lemma example_buttons:
  "statusButtons (AdminDashboardView (Some exampleAdmin) exampleBookings) =
     [(''b1'', ''Accepted''), (''b1'', ''Canceled'')]"
  by (simp add: exampleBookings_eq statusButtons_def AdminDashboardView_def optEmail_def
      exampleAdmin_def rowButtons_def status_toBooking exampleDoc_def)

lemma exampleSession_store: "fst (appRun exampleSession) ''b1'' = Some exampleSameDoc"
  by code_simp

section \<open>The claims\<close>

text \<open>
  Claim C1, amended. \<open>handleUpdateStatus\<close> validates nothing and has no invalid-transition
  failure: on an existing booking it writes whatever status is requested, also one that
  equals the current status, and it fails only when the store does not know the id, leaving
  the store as it was. The workflow table lives in the admin page: on a row that shows a
  status of the workflow, the buttons are exactly the edges of the table out of that status,
  and no button requests the status the row already shows.
\<close>

theorem no_transition_validation:
  "handleUpdateStatus st i t =
     (case st i of
        None \<Rightarrow> (st, FailedToUpdate NotFound)
      | Some d \<Rightarrow> (st(i \<mapsto> d\<lparr>status := t\<rparr>), StatusUpdated i t))
 \<and> (status b \<in> statuses \<longrightarrow>
      ((j, t') \<in> set (rowButtons b) \<longleftrightarrow> j = bookingId b \<and> spec_edge (status b) t'))
 \<and> (bookingId b, status b) \<notin> set (rowButtons b)"
proof -
  have "(bookingId b, status b) \<notin> set (rowButtons b)"
    by (auto simp add: rowButtons_def)
  then show ?thesis
    by (cases "st i") (simp_all add: handleUpdateStatus_Some handleUpdateStatus_None rowButtons_iff)
qed

text \<open>
  As stated, claim C1 fails: asked for Pending on a Completed booking, which is no edge of
  the table, \<open>handleUpdateStatus\<close> reports an update and the booking is Pending again; asked
  for Pending on a Pending booking, it reports an update as well.
\<close>

theorem invalid_transition_counterexample:
  "\<not> spec_edge ''Completed'' ''Pending''
 \<and> handleUpdateStatus [''b1'' \<mapsto> exampleDoc\<lparr>status := ''Completed''\<rparr>] ''b1'' ''Pending'' =
     ([''b1'' \<mapsto> exampleDoc], StatusUpdated ''b1'' ''Pending'')
 \<and> \<not> spec_edge ''Pending'' ''Pending''
 \<and> handleUpdateStatus [''b1'' \<mapsto> exampleDoc] ''b1'' ''Pending'' =
     ([''b1'' \<mapsto> exampleDoc], StatusUpdated ''b1'' ''Pending'')"
  by (simp add: spec_edge_def handleUpdateStatus_def updateDoc_def exampleDoc_def)

theorem no_transition_validation_witness:
  "status (toBooking (''b1'', exampleDoc)) \<in> statuses
 \<and> (''b1'', ''Accepted'') \<in> set (rowButtons (toBooking (''b1'', exampleDoc)))
 \<and> (''b1'', ''Completed'') \<notin> set (rowButtons (toBooking (''b1'', exampleDoc)))
 \<and> handleUpdateStatus [''b1'' \<mapsto> exampleDoc] ''b1'' ''Completed'' =
     ([''b1'' \<mapsto> exampleDoc\<lparr>status := ''Completed''\<rparr>], StatusUpdated ''b1'' ''Completed'')"
proof -
  have h: "status (toBooking (''b1'', exampleDoc)) \<in> statuses"
    by (simp add: status_toBooking exampleDoc_def statuses_def)
  have p: "status (toBooking (''b1'', exampleDoc)) = ''Pending''"
    by (simp add: status_toBooking exampleDoc_def)
  from no_transition_validation
         [of "[''b1'' \<mapsto> exampleDoc]" "''b1''" "''Completed''" "toBooking (''b1'', exampleDoc)" "''b1''" "''Accepted''"]
       no_transition_validation
         [of "[''b1'' \<mapsto> exampleDoc]" "''b1''" "''Completed''" "toBooking (''b1'', exampleDoc)" "''b1''" "''Completed''"]
       h
  show ?thesis
    by (simp add: status_toBooking spec_edge_def exampleDoc_def)
qed

text \<open>
  Claim C2, amended. A row that shows Completed or Canceled has no status button, so a click
  on an admin page that shows booking \<open>i\<close> only as Completed or Canceled (or does not show
  it) leaves the document of \<open>i\<close> as it is, whatever is clicked. Nothing is claimed for a
  page that still shows an older status.
\<close>

theorem terminal_rows_offer_no_transition:
  "(status b = ''Completed'' \<or> status b = ''Canceled'' \<longrightarrow> rowButtons b = [])
 \<and> ((\<forall>b \<in> set bookings. bookingId b = i \<longrightarrow> status b = ''Completed'' \<or> status b = ''Canceled'') \<longrightarrow>
      fst (clickStatusButton usr bookings btn st) i = st i)"
proof -
  have "fst (clickStatusButton usr bookings btn st) i = st i"
    if shown: "\<forall>b \<in> set bookings. bookingId b = i \<longrightarrow> status b = ''Completed'' \<or> status b = ''Canceled''"
  proof (cases "fst btn = i")
    case False
    then show ?thesis by (rule click_other)
  next
    case True
    have "btn \<notin> set (statusButtons (AdminDashboardView usr bookings))"
    proof
      assume "btn \<in> set (statusButtons (AdminDashboardView usr bookings))"
      then obtain b where b: "b \<in> set bookings" "btn \<in> set (rowButtons b)"
        by (auto simp add: statusButtons_admin)
      from b(2) have "bookingId b = i"
        using True by (simp add: rowButtons_fst)
      with shown b(1) have "rowButtons b = []"
        by (simp add: rowButtons_terminal)
      with b(2) show False by simp
    qed
    then show ?thesis
      by (simp add: clickStatusButton_def)
  qed
  then show ?thesis
    by (simp add: rowButtons_terminal)
qed

text \<open>
  As stated, claim C2 fails: the admin page shows the new booking as Pending, with its
  Accept and Cancel buttons; Cancel is clicked, and then Accept on the page as it still
  stands. The booking is Canceled after the first click and Accepted after the second.
\<close>

theorem terminal_status_overwritten_counterexample:
  "map_option status
     (run [Submit (Some exampleRider) exampleEnv exampleForm,
           Click (Some exampleAdmin) exampleBookings (''b1'', ''Canceled'')] ''b1'') = Some ''Canceled''
 \<and> map_option status
     (run [Submit (Some exampleRider) exampleEnv exampleForm,
           Click (Some exampleAdmin) exampleBookings (''b1'', ''Canceled''),
           Click (Some exampleAdmin) exampleBookings (''b1'', ''Accepted'')] ''b1'') = Some ''Accepted''"
  by (simp add: run_def example_created clickStatusButton_def example_buttons
      handleUpdateStatus_def updateDoc_def)

theorem terminal_rows_offer_no_transition_witness:
  "status (toBooking (''b1'', exampleDoc\<lparr>status := ''Completed''\<rparr>)) = ''Completed''
 \<and> rowButtons (toBooking (''b1'', exampleDoc\<lparr>status := ''Completed''\<rparr>)) = []
 \<and> fst (clickStatusButton (Some exampleAdmin) [toBooking (''b1'', exampleDoc\<lparr>status := ''Completed''\<rparr>)]
          (''b1'', ''Accepted'') [''b1'' \<mapsto> exampleDoc\<lparr>status := ''Completed''\<rparr>]) ''b1'' =
     Some (exampleDoc\<lparr>status := ''Completed''\<rparr>)"
proof -
  have p: "status (toBooking (''b1'', exampleDoc\<lparr>status := ''Completed''\<rparr>)) = ''Completed''"
    by (simp add: status_toBooking)
  from terminal_rows_offer_no_transition
         [of "toBooking (''b1'', exampleDoc\<lparr>status := ''Completed''\<rparr>)"
             "[toBooking (''b1'', exampleDoc\<lparr>status := ''Completed''\<rparr>)]" "''b1''"
             "Some exampleAdmin" "(''b1'', ''Accepted'')" "[''b1'' \<mapsto> exampleDoc\<lparr>status := ''Completed''\<rparr>]"]
       p
  show ?thesis by simp
qed

text \<open>
  Claim C3. For every identity whose e-mail address is not the admin address (also no
  identity at all), the admin page is the access-denied message, the navigation does not
  offer the page, and a status transition requested there, for any booking and any target,
  runs no handler and leaves the store unchanged.
\<close>

theorem non_admin_transition_denied:
  assumes "optEmail usr \<noteq> Some ''admin@cabapp.com''"
  shows "AdminDashboardView usr bookings = AccessDenied
       \<and> \<not> showAdminPanel usr
       \<and> clickStatusButton usr bookings btn st = (st, NoSuchButton)
       \<and> step st (Click usr bookings btn) = st"
  using assms
  by (simp add: AdminDashboardView_def showAdminPanel_def clickStatusButton_def statusButtons_def)

theorem non_admin_transition_denied_witness:
  "optEmail (Some exampleRider) \<noteq> Some ''admin@cabapp.com''
 \<and> AdminDashboardView (Some exampleRider) exampleBookings = AccessDenied
 \<and> clickStatusButton (Some exampleRider) exampleBookings (''b1'', ''Completed'') [''b1'' \<mapsto> exampleDoc] =
     ([''b1'' \<mapsto> exampleDoc], NoSuchButton)"
proof -
  have h: "optEmail (Some exampleRider) \<noteq> Some ''admin@cabapp.com''"
    by (simp add: optEmail_def exampleRider_def)
  from non_admin_transition_denied [OF h, of exampleBookings "(''b1'', ''Completed'')" "[''b1'' \<mapsto> exampleDoc]"] h
  show ?thesis by simp
qed

text \<open>
  Claim C4. The fare is a function of the vehicle type and the distance alone:
  \<open>baseFare + rate * distance\<close> in currency units, and not a number when the distance text is
  not one. For a Cab and the distance \<open>10.0\<close> it is 20, printed \<open>20.00\<close>, with base 5 and rate
  1.50. This is the fare whose text \<open>handleEstimate\<close> schedules for a form with both
  locations filled in.
\<close>

theorem fare_formula:
  "fareOf vt distText = map_option (\<lambda>d. baseFare vt + ratePerKm vt * d) (parseFloat distText)
 \<and> baseFare Cab = 5 \<and> ratePerKm Cab = 3 / 2
 \<and> fareOf Cab ''10.0'' = Some 20
 \<and> fareText (fareOf Cab ''10.0'') = ''20.00''
 \<and> (homeState.pickup s \<noteq> [] \<and> homeState.dropoff s \<noteq> [] \<longrightarrow>
      timeouts (handleEstimate s) =
        timeouts s @ [fareText (fareOf (homeState.vehicleType s)
                        (mockDistance (homeState.pickup s) (homeState.dropoff s)))])"
proof -
  have cab: "baseFare Cab = 5" "ratePerKm Cab = 3 / 2"
    by (simp_all add: baseFare_def ratePerKm_def)
  have ten: "fareOf Cab ''10.0'' = Some 20"
    by code_simp
  have twenty: "fareText (Some 20) = ''20.00''"
    by code_simp
  have est: "timeouts (handleEstimate s) =
        timeouts s @ [fareText (fareOf (homeState.vehicleType s)
                        (mockDistance (homeState.pickup s) (homeState.dropoff s)))]"
    if "homeState.pickup s \<noteq> []" "homeState.dropoff s \<noteq> []"
    using that by (simp add: handleEstimate_def Let_def)
  from fareOf_general [of vt distText] cab ten twenty est show ?thesis
    by simp
qed

theorem fare_formula_witness:
  "homeState.pickup exampleForm \<noteq> [] \<and> homeState.dropoff exampleForm \<noteq> []
 \<and> timeouts (handleEstimate exampleForm) = [''14.00'']
 \<and> fareEstimate (timeoutFires (handleEstimate exampleForm)) = Some ''14.00''
 \<and> fareOf Taxi ''24.0'' = Some (6 + 9 / 5 * 24)"
proof -
  have h: "homeState.pickup exampleForm \<noteq> [] \<and> homeState.dropoff exampleForm \<noteq> []"
    by (simp add: exampleForm_def)
  have ev: "fareText (fareOf Cab (mockDistance [65] [66])) = ''14.00''"
    by code_simp
  have pf: "parseFloat ''24.0'' = Some 24"
    by code_simp
  have taxi: "baseFare Taxi = 6" "ratePerKm Taxi = 9 / 5"
    by (simp_all add: baseFare_def ratePerKm_def)
  from fare_formula [of Taxi "''24.0''" exampleForm] h
  have t: "timeouts (handleEstimate exampleForm) = [''14.00'']"
    and f: "fareOf Taxi ''24.0'' = Some (6 + 9 / 5 * 24)"
    by (simp_all add: exampleForm_def ev pf taxi)
  from t have "fareEstimate (timeoutFires (handleEstimate exampleForm)) = Some ''14.00''"
    by (simp add: timeoutFires_def)
  with h t f show ?thesis
    by simp
qed





text \<open>
  Claim C7. When \<open>handleUpdateStatus\<close> succeeds, the targeted document differs from what it
  was in its \<open>status\<close> only, all ten other fields keep their values, and every other
  document of the store is untouched. Along every run of the application a document keeps
  all fields but \<open>status\<close>; its \<open>userId\<close> in particular never changes.
\<close>

theorem transition_writes_status_only:
  "(handleUpdateStatus st i t = (st', StatusUpdated i' t') \<longrightarrow>
      (\<exists>d d'. st i = Some d \<and> st' i = Some d' \<and> d' = d\<lparr>status := t\<rparr> \<and>
         userId d' = userId d \<and> userEmail d' = userEmail d \<and> pickup d' = pickup d \<and>
         dropoff d' = dropoff d \<and> vehicleType d' = vehicleType d \<and> distance d' = distance d \<and>
         fare d' = fare d \<and> dateTime d' = dateTime d \<and> createdAt d' = createdAt d \<and>
         paymentStatus d' = paymentStatus d)
      \<and> (\<forall>j. j \<noteq> i \<longrightarrow> st' j = st j))
 \<and> (st i = Some d0 \<longrightarrow> (\<exists>s. foldl step st evs i = Some (d0\<lparr>status := s\<rparr>))
      \<and> map_option userId (foldl step st evs i) = Some (userId d0))"
proof -
  have a: "(\<exists>d d'. st i = Some d \<and> st' i = Some d' \<and> d' = d\<lparr>status := t\<rparr> \<and>
         userId d' = userId d \<and> userEmail d' = userEmail d \<and> pickup d' = pickup d \<and>
         dropoff d' = dropoff d \<and> vehicleType d' = vehicleType d \<and> distance d' = distance d \<and>
         fare d' = fare d \<and> dateTime d' = dateTime d \<and> createdAt d' = createdAt d \<and>
         paymentStatus d' = paymentStatus d)
      \<and> (\<forall>j. j \<noteq> i \<longrightarrow> st' j = st j)"
    if ok: "handleUpdateStatus st i t = (st', StatusUpdated i' t')"
  proof (cases "st i")
    case None
    with ok show ?thesis by (simp add: handleUpdateStatus_None)
  next
    case (Some d)
    with ok have "st' = st(i \<mapsto> d\<lparr>status := t\<rparr>)"
      by (auto simp add: handleUpdateStatus_Some)
    with Some show ?thesis by simp
  qed
  have b: "(\<exists>s. foldl step st evs i = Some (d0\<lparr>status := s\<rparr>))
      \<and> map_option userId (foldl step st evs i) = Some (userId d0)"
    if "st i = Some d0"
    using steps_keep_fields [of st i d0 evs, OF that] by auto
  from a b show ?thesis by blast
qed

theorem transition_writes_status_only_witness:
  "handleUpdateStatus [''b1'' \<mapsto> exampleDoc, ''b2'' \<mapsto> exampleDoc2] ''b1'' ''Accepted'' =
     ([''b1'' \<mapsto> exampleDoc\<lparr>status := ''Accepted''\<rparr>, ''b2'' \<mapsto> exampleDoc2], StatusUpdated ''b1'' ''Accepted'')
 \<and> [''b1'' \<mapsto> exampleDoc, ''b2'' \<mapsto> exampleDoc2] ''b1'' = Some exampleDoc
 \<and> map_option userId
       (foldl step [''b1'' \<mapsto> exampleDoc, ''b2'' \<mapsto> exampleDoc2]
          [Click (Some exampleAdmin) exampleBookings (''b1'', ''Accepted'')] ''b1'') = Some ''U1''"
proof -
  have ne: "''b1'' \<noteq> ''b2''" by simp
  have h1: "handleUpdateStatus [''b1'' \<mapsto> exampleDoc, ''b2'' \<mapsto> exampleDoc2] ''b1'' ''Accepted'' =
     ([''b1'' \<mapsto> exampleDoc\<lparr>status := ''Accepted''\<rparr>, ''b2'' \<mapsto> exampleDoc2], StatusUpdated ''b1'' ''Accepted'')"
    using ne by (simp add: handleUpdateStatus_def updateDoc_def fun_upd_twist)
  have h2: "[''b1'' \<mapsto> exampleDoc, ''b2'' \<mapsto> exampleDoc2] ''b1'' = Some exampleDoc"
    by simp
  from transition_writes_status_only
         [of "[''b1'' \<mapsto> exampleDoc, ''b2'' \<mapsto> exampleDoc2]" "''b1''" "''Accepted''"
             "[''b1'' \<mapsto> exampleDoc\<lparr>status := ''Accepted''\<rparr>, ''b2'' \<mapsto> exampleDoc2]" "''b1''" "''Accepted''"
             exampleDoc "[Click (Some exampleAdmin) exampleBookings (''b1'', ''Accepted'')]"]
       h1 h2
  show ?thesis
    by (simp add: exampleDoc_def)
qed

text \<open>
  Claim C8. When no user or an anonymous user submits the booking form, \<open>handleBooking\<close>
  writes nothing to the store, whatever the store would have answered, leaves the form as it
  is, alerts the user to log in and moves to the login page.
\<close>

theorem unauthenticated_booking_redirected:
  assumes "usr = None \<or> (\<exists>u. usr = Some u \<and> isAnonymous u)"
  shows "handleBooking usr env st s =
           \<lparr>newStore = st, newState = s,
            alerts = [''Please log in or sign up to complete a booking.''],
            newPage = Some ''login''\<rparr>
       \<and> step st (Submit usr env s) = st"
  using assms by (auto simp add: handleBooking_def)

theorem unauthenticated_booking_redirected_witness:
  "(Some exampleGuest = None \<or> (\<exists>u. Some exampleGuest = Some u \<and> isAnonymous u))
 \<and> newStore (handleBooking (Some exampleGuest) exampleEnv Map.empty exampleForm) = Map.empty
 \<and> newPage (handleBooking (Some exampleGuest) exampleEnv Map.empty exampleForm) = Some ''login''
 \<and> newStore (handleBooking None exampleEnv Map.empty exampleForm) = Map.empty"
proof -
  have h: "Some exampleGuest = None \<or> (\<exists>u. Some exampleGuest = Some u \<and> isAnonymous u)"
    by (simp add: exampleGuest_def)
  have n: "(None :: user option) = None \<or> (\<exists>u. (None :: user option) = Some u \<and> isAnonymous u)"
    by simp
  from unauthenticated_booking_redirected [OF h, of exampleEnv Map.empty exampleForm]
       unauthenticated_booking_redirected [OF n, of exampleEnv Map.empty exampleForm] h
  show ?thesis by simp
qed

text \<open>
  Claim C9. A booking is created with status Pending, and in every store that the
  application's writes can produce from the empty store, every document has one of the four
  statuses Pending, Accepted, Completed, Canceled.
\<close>

theorem status_always_in_workflow:
  "status (newBooking u s t isoText) = ''Pending''
 \<and> (run evs i = Some d \<longrightarrow> status d \<in> statuses)"
proof -
  have "status d \<in> statuses" if "run evs i = Some d"
    using that unfolding run_def by (rule steps_statuses [rotated]) simp
  then show ?thesis by (simp add: newBooking_def)
qed

theorem status_always_in_workflow_witness:
  "run [Submit (Some exampleRider) exampleEnv exampleForm,
        Click (Some exampleAdmin) exampleBookings (''b1'', ''Accepted'')] ''b1'' =
     Some (exampleDoc\<lparr>status := ''Accepted''\<rparr>)
 \<and> status (exampleDoc\<lparr>status := ''Accepted''\<rparr>) \<in> statuses"
proof -
  have h: "run [Submit (Some exampleRider) exampleEnv exampleForm,
        Click (Some exampleAdmin) exampleBookings (''b1'', ''Accepted'')] ''b1'' =
     Some (exampleDoc\<lparr>status := ''Accepted''\<rparr>)"
    by (simp add: run_def example_created clickStatusButton_def example_buttons
        handleUpdateStatus_def updateDoc_def)
  from status_always_in_workflow
         [of exampleRider exampleForm 1000 "''x''"
             "[Submit (Some exampleRider) exampleEnv exampleForm,
               Click (Some exampleAdmin) exampleBookings (''b1'', ''Accepted'')]"
             "''b1''" "exampleDoc\<lparr>status := ''Accepted''\<rparr>"] h
  show ?thesis by simp
qed

text \<open>
  Claim C10. For all pickup and drop-off texts the mock distance is a whole number of
  kilometres from 5 to 24, printed with one decimal place, so the number read back from the
  text is at least 5.0 and at most 24.9; for equal texts it is the text \<open>5.0\<close>; and the fare
  computed from it is strictly positive for every vehicle type. A booking made by a signed-in
  user from a form with both locations filled in, once its estimate has arrived, carries
  this distance and the text of this fare. And every booking in the store, after any events
  of any sessions and any admin clicks, has a strictly positive distance, between 5.0 and
  24.9, and a strictly positive fare.
\<close>

theorem mockDistance_range:
  "5 \<le> mockDistanceKm p d \<and> mockDistanceKm p d \<le> 24
 \<and> mockDistance p d = show_nat (nat (mockDistanceKm p d)) @ ''.0''
 \<and> parseFloat (mockDistance p d) = Some (of_int (mockDistanceKm p d))
 \<and> (\<exists>x. parseFloat (mockDistance p d) = Some x \<and> 5 \<le> x \<and> x \<le> 249 / 10)
 \<and> mockDistance p p = ''5.0''
 \<and> (\<exists>f. fareOf vt (mockDistance p d) = Some f \<and> 0 < f)
 \<and> (homeState.pickup s \<noteq> [] \<and> homeState.dropoff s \<noteq> [] \<and> timeouts s = [] \<and>
    \<not> isAnonymous u \<and> isoDateTime env = Some isoText \<and> st (assignedId env) = None \<longrightarrow>
      (\<exists>doc. newStore (handleBooking (Some u) env st (timeoutFires (handleEstimate s))) (assignedId env) =
               Some doc
           \<and> bookingData.distance doc =
               mockDistance (homeState.pickup s) (homeState.dropoff s) @ '' km''
           \<and> fare doc =
               ''$'' @ fareText (fareOf (homeState.vehicleType s)
                        (mockDistance (homeState.pickup s) (homeState.dropoff s)))))
 \<and> (fst (appRun evs) i = Some stored \<longrightarrow>
      positiveBooking stored
      \<and> (\<exists>km. parseFloat (bookingData.distance stored) = Some km \<and> 5 \<le> km \<and> km \<le> 249 / 10))"
proof -
  have r: "5 \<le> mockDistanceKm p d" "mockDistanceKm p d \<le> 24"
    using mockDistanceKm_range [of p d] by simp_all
  have x: "(5 :: rat) \<le> of_int (mockDistanceKm p d)" "(of_int (mockDistanceKm p d) :: rat) \<le> 249 / 10"
  proof -
    from r(1) have "(of_int 5 :: rat) \<le> of_int (mockDistanceKm p d)"
      by (simp only: of_int_le_iff)
    then show "(5 :: rat) \<le> of_int (mockDistanceKm p d)" by simp
    from r(2) have "(of_int (mockDistanceKm p d) :: rat) \<le> of_int 24"
      by (simp only: of_int_le_iff)
    then show "(of_int (mockDistanceKm p d) :: rat) \<le> 249 / 10" by simp
  qed
  have same: "mockDistance p p = ''5.0''"
  proof -
    have "mockDistanceKm p p = 5" by (simp add: mockDistanceKm_def)
    then have "mockDistance p p = show_nat 5 @ ''.0''"
      using mockDistance_text [of p p] by simp
    then show ?thesis
      by (simp add: show_nat.simps [of 5] digit_char_def digit_chars_def)
  qed
  have pos: "0 < baseFare vt + ratePerKm vt * of_int (mockDistanceKm p d)"
  proof -
    have "0 \<le> ratePerKm vt * of_int (mockDistanceKm p d)"
      using ratePerKm_pos [of vt] x(1) by (intro mult_nonneg_nonneg) simp_all
    with baseFare_pos [of vt] show ?thesis by linarith
  qed
  have first: "5 \<le> mockDistanceKm p d \<and> mockDistanceKm p d \<le> 24
     \<and> mockDistance p d = show_nat (nat (mockDistanceKm p d)) @ ''.0''
     \<and> parseFloat (mockDistance p d) = Some (of_int (mockDistanceKm p d))
     \<and> (\<exists>x. parseFloat (mockDistance p d) = Some x \<and> 5 \<le> x \<and> x \<le> 249 / 10)
     \<and> mockDistance p p = ''5.0''
     \<and> (\<exists>f. fareOf vt (mockDistance p d) = Some f \<and> 0 < f)"
    using r x same pos
    by (simp add: mockDistance_text [symmetric] parseFloat_mockDistance fareOf_general)
  have booked: "\<exists>doc. newStore (handleBooking (Some u) env st (timeoutFires (handleEstimate s))) (assignedId env) =
               Some doc
           \<and> bookingData.distance doc =
               mockDistance (homeState.pickup s) (homeState.dropoff s) @ '' km''
           \<and> fare doc =
               ''$'' @ fareText (fareOf (homeState.vehicleType s)
                        (mockDistance (homeState.pickup s) (homeState.dropoff s)))"
    if "homeState.pickup s \<noteq> []" "homeState.dropoff s \<noteq> []" "timeouts s = []"
      "\<not> isAnonymous u" "isoDateTime env = Some isoText" "st (assignedId env) = None"
    using booking_after_estimate [of s u env isoText st] that by blast
  have every: "positiveBooking stored
      \<and> (\<exists>km. parseFloat (bookingData.distance stored) = Some km \<and> 5 \<le> km \<and> km \<le> 249 / 10)"
    if "fst (appRun evs) i = Some stored"
    using appRun_positive [OF that] estimated_distance [of stored] by blast
  from first booked every show ?thesis
    by blast
qed

theorem mockDistance_range_witness:
  "mockDistance [65] [66] = ''6.0'' \<and> mockDistance [65] [65] = ''5.0''
 \<and> parseFloat (mockDistance [65] [66]) = Some 6
 \<and> homeState.pickup exampleForm \<noteq> [] \<and> homeState.dropoff exampleForm \<noteq> []
 \<and> timeouts exampleForm = [] \<and> \<not> isAnonymous exampleRider
 \<and> isoDateTime exampleEnv = Some ''2024-01-01T10:00:00.000Z''
 \<and> map_option bookingData.distance
       (newStore (handleBooking (Some exampleRider) exampleEnv Map.empty
          (timeoutFires (handleEstimate exampleForm))) ''b1'') = Some ''6.0 km''
 \<and> fst (appRun exampleSession) ''b1'' = Some exampleSameDoc
 \<and> bookingData.pickup exampleSameDoc = bookingData.dropoff exampleSameDoc
 \<and> positiveBooking exampleSameDoc"
proof -
  have km: "mockDistanceKm [65] [66] = 6"
    by code_simp
  have six: "show_nat 6 = ''6''"
    by (simp add: show_nat.simps [of 6] digit_char_def digit_chars_def)
  have run: "fst (appRun exampleSession) ''b1'' = Some exampleSameDoc"
    by (rule exampleSession_store)
  note far = mockDistance_range [of "[65]" "[66]" Cab exampleForm exampleRider exampleEnv
      "''2024-01-01T10:00:00.000Z''" Map.empty exampleSession "''b1''" exampleSameDoc]
  note same = mockDistance_range [of "[65]" "[65]" Cab exampleForm exampleRider exampleEnv
      "''2024-01-01T10:00:00.000Z''" Map.empty exampleSession "''b1''" exampleSameDoc]
  from far run have pos: "positiveBooking exampleSameDoc"
    by blast
  have eq: "bookingData.pickup exampleSameDoc = bookingData.dropoff exampleSameDoc"
    by (simp add: exampleSameDoc_def)
  from far have t: "mockDistance [65] [66] = ''6.0''"
    by (simp add: km six)
  from far have "parseFloat (mockDistance [65] [66]) = Some (of_int (mockDistanceKm [65] [66]))"
    by blast
  then have pf: "parseFloat (mockDistance [65] [66]) = Some 6"
    by (simp add: km)
  from same have e: "mockDistance [65] [65] = ''5.0''"
    by blast
  have h: "homeState.pickup exampleForm \<noteq> []" "homeState.dropoff exampleForm \<noteq> []"
    "timeouts exampleForm = []" "\<not> isAnonymous exampleRider"
    "isoDateTime exampleEnv = Some ''2024-01-01T10:00:00.000Z''"
    "Map.empty (assignedId exampleEnv) = (None :: bookingData option)"
    by (simp_all add: exampleForm_def exampleRider_def exampleEnv_def)
  have loc: "homeState.pickup exampleForm = [65]" "homeState.dropoff exampleForm = [66]"
    "assignedId exampleEnv = ''b1''"
    by (simp_all add: exampleForm_def exampleEnv_def)
  from far h obtain doc where
    "newStore (handleBooking (Some exampleRider) exampleEnv Map.empty
       (timeoutFires (handleEstimate exampleForm))) (assignedId exampleEnv) = Some doc"
    "bookingData.distance doc =
       mockDistance (homeState.pickup exampleForm) (homeState.dropoff exampleForm) @ '' km''"
    by blast
  then have b: "map_option bookingData.distance
       (newStore (handleBooking (Some exampleRider) exampleEnv Map.empty
          (timeoutFires (handleEstimate exampleForm))) ''b1'') = Some ''6.0 km''"
    by (simp add: loc t)
  from t e pf h(1-5) b run eq pos show ?thesis
    by (intro conjI)
qed

end
